theory Spec2Isabelle
  imports
    Complex_Main
    "HOL-Library.AList"
    "HOL-Library.Char_ord"
    "HOL-Library.List_Lexorder"
    "HOL-Library.Log_Nat"
begin

section \<open>Values and documents\<close>

text \<open>
  The handlers of \<^verbatim>\<open>main.py\<close> move Python dictionaries between the request, the
  document store and the response. A value is one of the Python values the entity schemas
  of \<^verbatim>\<open>schemas.py\<close> and the store produce: \<^verbatim>\<open>None\<close>, a bool, an int, a float, a
  str, a naive \<^verbatim>\<open>datetime\<close>, the store's \<^verbatim>\<open>ObjectId\<close> and a list of str (the only
  list-typed field of the schemas is \<^verbatim>\<open>SymptomCheck.symptoms\<close>).

  A naive datetime is a point on one time line: it is modelled by its number of
  microseconds since the first representable instant, so that Python's comparison of two
  datetimes is the comparison of these numbers. An ObjectId is a 12-byte number; a finite
  float is the rational number it denotes.
\<close>

type_synonym datetime = int

datatype val =
    VNone
  | VBool bool
  | VInt int
  | VFloat rat
  | VStr string
  | VDatetime datetime
  | VObjectId nat
  | VStrList "string list"

text \<open>
  A Python \<^verbatim>\<open>dict\<close> keeps its keys in insertion order; \<^verbatim>\<open>d[k] = v\<close> replaces the
  value of a key that is present, in place, and appends the pair otherwise. This is
  \<^const>\<open>AList.update\<close> on an association list; \<^verbatim>\<open>d.get(k)\<close> is \<^const>\<open>map_of\<close>.
  A dictionary has each key once: \<^term>\<open>distinct (map fst d)\<close>.
\<close>

type_synonym doc = "(string \<times> val) list"

definition is_dict :: "doc \<Rightarrow> bool" where
  "is_dict d = distinct (map fst d)"

text \<open>
  Two functions of the Python library render a value as text: the builtin \<^verbatim>\<open>str\<close> and
  \<^verbatim>\<open>datetime.isoformat\<close>. Their code is not part of the repository; the model takes
  them as parameters. \<^verbatim>\<open>str\<close> of a str is that str; for every other value \<open>py_str\<close>
  asks the library.
\<close>

record pylib =
  builtin_str :: "val \<Rightarrow> string"
  isoformat :: "datetime \<Rightarrow> string"

definition py_str :: "pylib \<Rightarrow> val \<Rightarrow> string" where
  "py_str L v = (case v of VStr s \<Rightarrow> s | _ \<Rightarrow> builtin_str L v)"

text \<open>
  An instance of the library, for the evaluations on concrete data. No statement below
  depends on what it renders: a rendered text stays written as \<open>py_str lib0 v\<close> or
  \<open>isoformat lib0 t\<close>, and a document whose identifier is a str never reaches it.
\<close>

definition lib0 :: pylib where
  "lib0 = \<lparr>builtin_str = (\<lambda>v. []), isoformat = (\<lambda>t. [])\<rparr>"

text \<open>
  The failures of a request. The handlers raise \<^verbatim>\<open>HTTPException(status_code, detail)\<close>;
  the framework rejects a query parameter outside its declared range before the handler
  runs; the store adapter fails when no connection was configured; comparing two values
  that Python cannot order raises \<^verbatim>\<open>TypeError\<close>; the store's driver raises
  \<^verbatim>\<open>OverflowError\<close> for an int it cannot encode.
\<close>

datatype error =
    HTTPException nat string
  | RequestValidationError
  | StoreUnavailable
  | TypeError
  | OverflowError

section \<open>Serialization: \<^verbatim>\<open>_serialize\<close>\<close>

text \<open>
  \<^verbatim>\<open>
  def _serialize(doc):
      if doc is None:
          return doc
      res = {}
      for k, v in doc.items():
          if k == "_id":
              res["id"] = str(v)
          elif isinstance(v, datetime):
              res[k] = v.isoformat()
          else:
              res[k] = v
      return res
  \<close>
  The loop body is \<open>serialize_step\<close>, the loop a \<^const>\<open>fold\<close> over the items in their
  order, starting from the empty dictionary.
\<close>

fun serialize_step :: "pylib \<Rightarrow> string \<times> val \<Rightarrow> doc \<Rightarrow> doc" where
  "serialize_step L (k, v) res =
     (if k = ''_id'' then AList.update ''id'' (VStr (py_str L v)) res
      else case v of
         VDatetime t \<Rightarrow> AList.update k (VStr (isoformat L t)) res
       | _ \<Rightarrow> AList.update k v res)"

definition serialize_items :: "pylib \<Rightarrow> doc \<Rightarrow> doc" where
  "serialize_items L d = fold (serialize_step L) d []"

definition serialize :: "pylib \<Rightarrow> doc option \<Rightarrow> doc option" where
  "serialize L doc = (case doc of None \<Rightarrow> None | Some d \<Rightarrow> Some (serialize_items L d))"

text \<open>
  The item that one pass of the loop writes, and the value the public representation holds
  for a stored value that is not the identifier.
\<close>

fun public_val :: "pylib \<Rightarrow> val \<Rightarrow> val" where
  "public_val L (VDatetime t) = VStr (isoformat L t)"
| "public_val L v = v"

definition public_item :: "pylib \<Rightarrow> string \<times> val \<Rightarrow> string \<times> val" where
  "public_item L kv =
     (if fst kv = ''_id'' then (''id'', VStr (py_str L (snd kv)))
      else (fst kv, public_val L (snd kv)))"

text \<open>
  A public representation: a dictionary with no \<^verbatim>\<open>_id\<close> key and no datetime value.
\<close>

definition public_doc :: "doc \<Rightarrow> bool" where
  "public_doc d =
     (is_dict d \<and> ''_id'' \<notin> fst ` set d \<and> (\<forall>t. VDatetime t \<notin> snd ` set d))"

text \<open>
  The reading of the specification's sentence on \<^verbatim>\<open>toPublic\<close>, field by field: the
  identifier becomes the text field \<^verbatim>\<open>id\<close>, the key \<^verbatim>\<open>_id\<close> is gone, and every
  other field (the field \<^verbatim>\<open>id\<close> of the document among them) keeps its value, a datetime
  as its ISO text.
\<close>

definition toPublic_spec :: "pylib \<Rightarrow> doc \<Rightarrow> doc \<Rightarrow> bool" where
  "toPublic_spec L d r =
     ((case map_of d ''_id'' of
         None \<Rightarrow> True
       | Some v \<Rightarrow> map_of r ''id'' = Some (VStr (py_str L v)))
      \<and> map_of r ''_id'' = None
      \<and> list_all (\<lambda>kv. fst kv = ''_id'' \<or> map_of r (fst kv) = Some (public_val L (snd kv))) d)"

text \<open>
  What the code computes for each key: when the document holds both \<^verbatim>\<open>_id\<close> and
  \<^verbatim>\<open>id\<close>, both write the key \<^verbatim>\<open>id\<close> of the result and the later one stays.
\<close>

definition public_field :: "pylib \<Rightarrow> doc \<Rightarrow> string \<Rightarrow> val option" where
  "public_field L d k =
     (if k = ''_id'' then None
      else if k = ''id'' \<and> map_of d ''_id'' \<noteq> None
        then map_option (\<lambda>v. VStr (py_str L v)) (map_of d ''_id'')
      else map_option (public_val L) (map_of d k))"

text \<open>
  The field \<^verbatim>\<open>id\<close> of the result, for any document: the loop writes it for the key
  \<^verbatim>\<open>_id\<close> and for the key \<^verbatim>\<open>id\<close>, so the later of the two in the document decides.
\<close>

definition id_field :: "pylib \<Rightarrow> doc \<Rightarrow> val option" where
  "id_field L d =
     (let ps = filter (\<lambda>kv. fst kv = ''_id'' \<or> fst kv = ''id'') d
      in if ps = [] then None
         else Some (if fst (last ps) = ''_id'' then VStr (py_str L (snd (last ps)))
                    else public_val L (snd (last ps))))"

section \<open>Floating point\<close>

text \<open>
  The risk score is computed on Python floats, IEEE 754 binary64 numbers. A finite float is
  the rational it denotes; an operation returns the exact result rounded to 53 significant
  bits, ties to even. \<open>binade x\<close> is the exponent \<open>e\<close> with \<open>2^e \<le> x < 2^(e+1)\<close> of a
  positive \<open>x\<close>. Rounding is modelled on the normal range only: the scores are zero or lie
  between \<open>0.15\<close> and \<open>0.15 * 2^63 + 0.85\<close>, the length of a Python list being below
  \<open>2^63\<close>, so neither a subnormal nor an infinity is ever reached.
\<close>

definition pow2 :: "int \<Rightarrow> rat" where
  "pow2 e = (if 0 \<le> e then 2 ^ nat e else 1 / 2 ^ nat (- e))"

definition binade :: "rat \<Rightarrow> int" where
  "binade x =
     (case quotient_of x of (a, b) \<Rightarrow>
        let e = bitlen a - bitlen b in if pow2 e \<le> x then e else e - 1)"

definition round_half_even :: "rat \<Rightarrow> int" where
  "round_half_even x =
     (let f = \<lfloor>x\<rfloor>; d = x - of_int f
      in if d < 1 / 2 then f else if 1 / 2 < d then f + 1 else if even f then f else f + 1)"

definition round_double :: "rat \<Rightarrow> rat" where
  "round_double x =
     (if x = 0 then 0
      else let ulp = pow2 (binade \<bar>x\<bar> - 52)
           in sgn x * of_int (round_half_even (\<bar>x\<bar> / ulp)) * ulp)"

text \<open>
  A decimal literal of the source denotes the nearest float; \<^verbatim>\<open>0.15 * count\<close> converts
  the int to a float first; product and sum round once each.
\<close>

definition float_lit :: "rat \<Rightarrow> rat" where
  "float_lit q = round_double q"

definition float_of_int :: "int \<Rightarrow> rat" where
  "float_of_int n = round_double (of_int n)"

definition fmul :: "rat \<Rightarrow> rat \<Rightarrow> rat" where
  "fmul a b = round_double (a * b)"

definition fadd :: "rat \<Rightarrow> rat \<Rightarrow> rat" where
  "fadd a b = round_double (a + b)"

section \<open>Entity schemas\<close>

text \<open>
  The validated request bodies of \<^verbatim>\<open>schemas.py\<close> and the \<^verbatim>\<open>ProfileUpdate\<close> body of
  \<^verbatim>\<open>main.py\<close>. A \<^verbatim>\<open>Literal\<close> type is a datatype, an \<^verbatim>\<open>Optional\<close> field an option.
  \<open>dump_\<close> is pydantic's \<^verbatim>\<open>model_dump()\<close>: every declared field in declaration
  order, \<^verbatim>\<open>None\<close> for a field without a value.
\<close>

datatype gender = Male | Female | Other | PreferNotToSay

datatype theme = Dark | Light | System

datatype role = User | Assistant

datatype severity = Mild | Moderate | Severe

fun gender_str :: "gender \<Rightarrow> string" where
  "gender_str Male = ''male''"
| "gender_str Female = ''female''"
| "gender_str Other = ''other''"
| "gender_str PreferNotToSay = ''prefer_not_to_say''"

fun theme_str :: "theme \<Rightarrow> string" where
  "theme_str Dark = ''dark''"
| "theme_str Light = ''light''"
| "theme_str System = ''system''"

fun role_str :: "role \<Rightarrow> string" where
  "role_str User = ''user''"
| "role_str Assistant = ''assistant''"

fun severity_str :: "severity \<Rightarrow> string" where
  "severity_str Mild = ''mild''"
| "severity_str Moderate = ''moderate''"
| "severity_str Severe = ''severe''"

definition opt :: "('a \<Rightarrow> val) \<Rightarrow> 'a option \<Rightarrow> val" where
  "opt f x = (case x of None \<Rightarrow> VNone | Some y \<Rightarrow> f y)"

record UserProfile =
  name :: string
  email :: string
  phone :: "string option"
  age :: "int option"
  gender :: "gender option"
  height_cm :: "rat option"
  weight_kg :: "rat option"
  theme :: theme
  notifications_enabled :: bool

definition dump_UserProfile :: "UserProfile \<Rightarrow> doc" where
  "dump_UserProfile p =
     [(''name'', VStr (UserProfile.name p)),
      (''email'', VStr (UserProfile.email p)),
      (''phone'', opt VStr (UserProfile.phone p)),
      (''age'', opt VInt (UserProfile.age p)),
      (''gender'', opt (\<lambda>g. VStr (gender_str g)) (UserProfile.gender p)),
      (''height_cm'', opt VFloat (UserProfile.height_cm p)),
      (''weight_kg'', opt VFloat (UserProfile.weight_kg p)),
      (''theme'', VStr (theme_str (UserProfile.theme p))),
      (''notifications_enabled'', VBool (UserProfile.notifications_enabled p))]"

record ChatMessage =
  conversation_id :: "string option"
  role :: role
  content :: string
  owner_email :: "string option"

definition dump_ChatMessage :: "ChatMessage \<Rightarrow> doc" where
  "dump_ChatMessage m =
     [(''conversation_id'', opt VStr (ChatMessage.conversation_id m)),
      (''role'', VStr (role_str (ChatMessage.role m))),
      (''content'', VStr (ChatMessage.content m)),
      (''owner_email'', opt VStr (ChatMessage.owner_email m))]"

text \<open>
  The field \<^verbatim>\<open>notes\<close> is written \<open>notes'\<close>, \<open>notes\<close> being a keyword of Isabelle; the
  stored document keeps the field's name.
\<close>

record SymptomCheck =
  symptoms :: "string list"
  duration :: "string option"
  severity :: "severity option"
  notes' :: "string option"
  assessment :: "string option"
  risk_score :: "rat option"
  owner_email :: "string option"

definition dump_SymptomCheck :: "SymptomCheck \<Rightarrow> doc" where
  "dump_SymptomCheck e =
     [(''symptoms'', VStrList (SymptomCheck.symptoms e)),
      (''duration'', opt VStr (SymptomCheck.duration e)),
      (''severity'', opt (\<lambda>v. VStr (severity_str v)) (SymptomCheck.severity e)),
      (''notes'', opt VStr (SymptomCheck.notes' e)),
      (''assessment'', opt VStr (SymptomCheck.assessment e)),
      (''risk_score'', opt VFloat (SymptomCheck.risk_score e)),
      (''owner_email'', opt VStr (SymptomCheck.owner_email e))]"

text \<open>
  \<^verbatim>\<open>
  class ProfileUpdate(BaseModel):
      name: Optional[str] = None
      phone: Optional[str] = None
      age: Optional[int] = None
      gender: Optional[str] = None
      height_cm: Optional[float] = None
      weight_kg: Optional[float] = None
      theme: Optional[str] = None
      notifications_enabled: Optional[bool] = None
  \<close>
\<close>

record ProfileUpdate =
  name :: "string option"
  phone :: "string option"
  age :: "int option"
  gender :: "string option"
  height_cm :: "rat option"
  weight_kg :: "rat option"
  theme :: "string option"
  notifications_enabled :: "bool option"

definition dump_ProfileUpdate :: "ProfileUpdate \<Rightarrow> doc" where
  "dump_ProfileUpdate c =
     [(''name'', opt VStr (ProfileUpdate.name c)),
      (''phone'', opt VStr (ProfileUpdate.phone c)),
      (''age'', opt VInt (ProfileUpdate.age c)),
      (''gender'', opt VStr (ProfileUpdate.gender c)),
      (''height_cm'', opt VFloat (ProfileUpdate.height_cm c)),
      (''weight_kg'', opt VFloat (ProfileUpdate.weight_kg c)),
      (''theme'', opt VStr (ProfileUpdate.theme c)),
      (''notifications_enabled'', opt VBool (ProfileUpdate.notifications_enabled c))]"

section \<open>The document store\<close>

text \<open>
  The module \<^verbatim>\<open>database\<close> (\<^verbatim>\<open>db\<close>, \<^verbatim>\<open>create_document\<close>, \<^verbatim>\<open>get_documents\<close>) is
  imported by \<^verbatim>\<open>main.py\<close>; its code is not among the source files. Its three names
  are modelled from section 4.1 of the specification.
\<close>

text \<open>
  Modelled from the spec: the store handle \<^verbatim>\<open>db\<close> of the missing module
  \<^verbatim>\<open>database\<close>. The store holds one collection per entity type, a sequence of documents
  in insertion order, and assigns a fresh identifier to each inserted document. The handle
  is \<^verbatim>\<open>None\<close> when the connection was never established.
\<close>

record database =
  collections :: "string \<Rightarrow> doc list"
  next_oid :: nat

type_synonym store = "database option"

text \<open>
  Modelled from the spec: the filter of a query of the missing module \<^verbatim>\<open>database\<close>,
  a "mapping of field to exact-match value"; a document matches when it holds each field
  with exactly that value.
\<close>

definition matches :: "doc \<Rightarrow> doc \<Rightarrow> bool" where
  "matches filt d = list_all (\<lambda>kv. map_of d (fst kv) = Some (snd kv)) filt"

text \<open>
  Modelled from the spec: the document that the insert of the missing module
  \<^verbatim>\<open>database\<close> writes for an entity, "the entity's fields (excluding unset optional
  fields)". A field without a value is an unset field.
\<close>

definition set_fields :: "doc \<Rightarrow> doc" where
  "set_fields entity = filter (\<lambda>kv. snd kv \<noteq> VNone) entity"

text \<open>
  Modelled from the spec: the new document of the missing \<^verbatim>\<open>create_document\<close>, the
  entity's set fields under the identifier the store assigns.
\<close>

definition stored_doc :: "nat \<Rightarrow> doc \<Rightarrow> doc" where
  "stored_doc n entity = (''_id'', VObjectId n) # set_fields entity"

text \<open>
  Modelled from the spec: \<^verbatim>\<open>create_document\<close> of the missing module \<^verbatim>\<open>database\<close>,
  the adapter's insert: it "serializes the entity's fields (excluding unset optional fields)
  into a new document; returns the store-assigned unique identifier as a string", with one
  write, and "fails with StoreUnavailable when the underlying connection was never
  established".
\<close>

definition create_document :: "pylib \<Rightarrow> store \<Rightarrow> string \<Rightarrow> doc \<Rightarrow> (error + string) \<times> store" where
  "create_document L s coll entity =
     (case s of
        None \<Rightarrow> (Inl StoreUnavailable, s)
      | Some db \<Rightarrow>
          let oid = VObjectId (next_oid db);
              d = stored_doc (next_oid db) entity
          in (Inr (py_str L oid),
              Some (db\<lparr>collections := (collections db)(coll := collections db coll @ [d]),
                       next_oid := Suc (next_oid db)\<rparr>)))"

text \<open>
  Modelled from the spec: \<^verbatim>\<open>get_documents\<close> of the missing module \<^verbatim>\<open>database\<close>, the
  adapter's query: it "returns at most limit documents matching all filter predicates
  (logical AND, equality only)", in the store's order, and fails like the insert when there
  is no connection.
\<close>

definition get_documents :: "store \<Rightarrow> string \<Rightarrow> doc \<Rightarrow> nat \<Rightarrow> error + doc list" where
  "get_documents s coll filt limit =
     (case s of
        None \<Rightarrow> Inl StoreUnavailable
      | Some db \<Rightarrow> Inr (take limit (filter (matches filt) (collections db coll))))"

text \<open>
  \<^verbatim>\<open>update_profile\<close> talks to the collection object of the store's driver directly.
  \<^verbatim>\<open>find_one(filter)\<close> returns the first matching document or \<^verbatim>\<open>None\<close>.
\<close>

definition find_one :: "doc list \<Rightarrow> doc \<Rightarrow> doc option" where
  "find_one docs filt = find (matches filt) docs"

text \<open>
  The driver encodes what it sends as BSON, before anything is written. An int must fit
  eight bytes: the driver raises \<^verbatim>\<open>OverflowError\<close> otherwise. A datetime is stored in
  milliseconds: its microseconds below the millisecond are dropped. Every other value of
  the model is stored as it is.
\<close>

definition int64 :: "int \<Rightarrow> bool" where
  "int64 i = (- (2 ^ 63) \<le> i \<and> i < 2 ^ 63)"

definition millis :: "datetime \<Rightarrow> datetime" where
  "millis t = t div 1000 * 1000"

fun bson_val :: "val \<Rightarrow> error + val" where
  "bson_val (VInt i) = (if int64 i then Inr (VInt i) else Inl OverflowError)"
| "bson_val (VDatetime t) = Inr (VDatetime (millis t))"
| "bson_val v = Inr v"

fun bson_doc :: "doc \<Rightarrow> error + doc" where
  "bson_doc [] = Inr []"
| "bson_doc (kv # kvs) =
     (case bson_val (snd kv) of
        Inl e \<Rightarrow> Inl e
      | Inr v \<Rightarrow> (case bson_doc kvs of Inl e \<Rightarrow> Inl e | Inr r \<Rightarrow> Inr ((fst kv, v) # r)))"

text \<open>
  \<^verbatim>\<open>update_one(filter, {"$set": data})\<close> encodes \<open>data\<close> and sets its fields in the first
  matching document, replacing the value of a field the document has and appending a field
  it has not; it changes nothing when no document matches, and writes nothing when the
  encoding fails.
\<close>

definition apply_set :: "doc \<Rightarrow> doc \<Rightarrow> doc" where
  "apply_set data d = fold (\<lambda>kv. AList.update (fst kv) (snd kv)) data d"

fun set_first :: "doc list \<Rightarrow> doc \<Rightarrow> doc \<Rightarrow> doc list" where
  "set_first [] filt data = []"
| "set_first (d # ds) filt data =
     (if matches filt d then apply_set data d # ds else d # set_first ds filt data)"

definition update_one :: "doc list \<Rightarrow> doc \<Rightarrow> doc \<Rightarrow> error + doc list" where
  "update_one docs filt data =
     (case bson_doc data of Inl e \<Rightarrow> Inl e | Inr stored \<Rightarrow> Inr (set_first docs filt stored))"

section \<open>Request handlers\<close>

text \<open>
  A handler that writes returns its outcome together with the store after the request, so
  that what a failed request wrote is visible. A query parameter \<^verbatim>\<open>Optional[str]\<close> is
  tested by truth value: \<^verbatim>\<open>None\<close> and the empty string select nothing.
\<close>

definition truthy :: "string option \<Rightarrow> bool" where
  "truthy x = (x \<noteq> None \<and> x \<noteq> Some [])"

definition owner_filter :: "string option \<Rightarrow> doc" where
  "owner_filter owner = (if truthy owner then [(''owner_email'', VStr (the owner))] else [])"

text \<open>
  \<^verbatim>\<open>limit: int = Query(dflt, ge=lo, le=hi)\<close>: an absent parameter takes the default; a
  given one outside the range is rejected by the framework before the handler runs.
\<close>

definition query_limit :: "int \<Rightarrow> int \<Rightarrow> int \<Rightarrow> int option \<Rightarrow> error + int" where
  "query_limit dflt lo hi given =
     (case given of
        None \<Rightarrow> Inr dflt
      | Some l \<Rightarrow> if lo \<le> l \<and> l \<le> hi then Inr l else Inl RequestValidationError)"

subsection \<open>Profiles\<close>

text \<open>
  \<^verbatim>\<open>
  def create_profile(profile: UserProfile):
      existing = get_documents("userprofile", {"email": profile.email}, limit=1)
      if existing:
          raise HTTPException(status_code=400, detail="Profile with this email already exists")
      new_id = create_document("userprofile", profile)
      return {"id": new_id}
  \<close>
  The specification calls this failure the \<open>Conflict\<close> condition.
\<close>

definition Conflict :: error where
  "Conflict = HTTPException 400 ''Profile with this email already exists''"

definition create_profile :: "pylib \<Rightarrow> store \<Rightarrow> UserProfile \<Rightarrow> (error + doc) \<times> store" where
  "create_profile L s profile =
     (case get_documents s ''userprofile'' [(''email'', VStr (UserProfile.email profile))] 1 of
        Inl e \<Rightarrow> (Inl e, s)
      | Inr existing \<Rightarrow>
          if existing \<noteq> [] then (Inl Conflict, s)
          else (case create_document L s ''userprofile'' (dump_UserProfile profile) of
                  (Inl e, s') \<Rightarrow> (Inl e, s')
                | (Inr new_id, s') \<Rightarrow> (Inr [(''id'', VStr new_id)], s')))"

text \<open>
  \<^verbatim>\<open>
  def update_profile(email: str, changes: ProfileUpdate):
      if db is None:
          raise HTTPException(status_code=503, detail="Database not available")
      coll = db["userprofile"]
      found = coll.find_one({"email": email})
      if not found:
          raise HTTPException(status_code=404, detail="Profile not found")
      data = {k: v for k, v in changes.model_dump().items() if v is not None}
      data["updated_at"] = datetime.utcnow()
      coll.update_one({"email": email}, {"$set": data})
      return {"ok": True}
  \<close>
  \<open>now\<close> is the reading of the clock, \<open>email_arg\<close> the query parameter \<^verbatim>\<open>email\<close>.
  \<^verbatim>\<open>not found\<close> holds of \<^verbatim>\<open>None\<close> and of the empty dictionary. The specification calls
  the 404 failure \<open>NotFound\<close>. An exception of the driver leaves the handler as it is
  raised, before \<^verbatim>\<open>return\<close>.
\<close>

definition NotFound :: error where
  "NotFound = HTTPException 404 ''Profile not found''"

definition update_data :: "datetime \<Rightarrow> ProfileUpdate \<Rightarrow> doc" where
  "update_data now changes =
     AList.update ''updated_at'' (VDatetime now)
       (filter (\<lambda>kv. snd kv \<noteq> VNone) (dump_ProfileUpdate changes))"

definition update_profile :: "store \<Rightarrow> datetime \<Rightarrow> string \<Rightarrow> ProfileUpdate \<Rightarrow> (error + doc) \<times> store" where
  "update_profile s now email_arg changes =
     (case s of
        None \<Rightarrow> (Inl (HTTPException 503 ''Database not available''), s)
      | Some db \<Rightarrow>
          let coll = collections db ''userprofile'';
              found = find_one coll [(''email'', VStr email_arg)]
          in if found = None \<or> found = Some [] then (Inl NotFound, s)
             else let data = update_data now changes
                  in (case update_one coll [(''email'', VStr email_arg)] data of
                        Inl e \<Rightarrow> (Inl e, s)
                      | Inr coll' \<Rightarrow>
                          (Inr [(''ok'', VBool True)],
                           Some (db\<lparr>collections := (collections db)(''userprofile'' := coll')\<rparr>))))"

subsection \<open>Reports, symptom checks and reminders: the list endpoints\<close>




subsection \<open>Chat\<close>

text \<open>
  \<^verbatim>\<open>
  def chat(message: ChatMessage):
      user_msg_id = create_document("chatmessage", message)
      reply_text = (
          "I'm your AarogyaAI assistant. While I can't provide medical diagnosis, "
          "I can help you track symptoms and suggest next steps. Could you share more details?"
      )
      assistant_msg = ChatMessage(
          conversation_id=message.conversation_id,
          role="assistant",
          content=reply_text,
          owner_email=message.owner_email,
      )
      assistant_msg_id = create_document("chatmessage", assistant_msg)
      return {"user_message_id": user_msg_id, "assistant_message_id": assistant_msg_id,
              "reply": reply_text}
  \<close>
\<close>

definition reply_text :: string where
  "reply_text =
     ''I'm your AarogyaAI assistant. While I can't provide medical diagnosis, '' @
     ''I can help you track symptoms and suggest next steps. Could you share more details?''"

definition assistant_msg :: "ChatMessage \<Rightarrow> ChatMessage" where
  "assistant_msg message =
     \<lparr>conversation_id = ChatMessage.conversation_id message,
      role = Assistant,
      content = reply_text,
      owner_email = ChatMessage.owner_email message\<rparr>"

definition chat :: "pylib \<Rightarrow> store \<Rightarrow> ChatMessage \<Rightarrow> (error + doc) \<times> store" where
  "chat L s message =
     (case create_document L s ''chatmessage'' (dump_ChatMessage message) of
        (Inl e, s1) \<Rightarrow> (Inl e, s1)
      | (Inr user_msg_id, s1) \<Rightarrow>
          (case create_document L s1 ''chatmessage'' (dump_ChatMessage (assistant_msg message)) of
             (Inl e, s2) \<Rightarrow> (Inl e, s2)
           | (Inr assistant_msg_id, s2) \<Rightarrow>
               (Inr [(''user_message_id'', VStr user_msg_id),
                     (''assistant_message_id'', VStr assistant_msg_id),
                     (''reply'', VStr reply_text)], s2)))"

text \<open>
  Python orders two values with \<^verbatim>\<open><\<close>: numbers (bool, int, float) among themselves by
  value, two str by code points, two datetimes by time, two ObjectIds by their bytes, two
  lists of str lexicographically; every other pair raises \<^verbatim>\<open>TypeError\<close>.
\<close>

fun py_num :: "val \<Rightarrow> rat option" where
  "py_num (VBool b) = Some (if b then 1 else 0)"
| "py_num (VInt i) = Some (of_int i)"
| "py_num (VFloat r) = Some r"
| "py_num v = None"

fun py_lt :: "val \<Rightarrow> val \<Rightarrow> error + bool" where
  "py_lt (VDatetime a) (VDatetime b) = Inr (a < b)"
| "py_lt (VStr a) (VStr b) = Inr (a < b)"
| "py_lt (VObjectId a) (VObjectId b) = Inr (a < b)"
| "py_lt (VStrList a) (VStrList b) = Inr (a < b)"
| "py_lt a b =
     (case (py_num a, py_num b) of
        (Some x, Some y) \<Rightarrow> Inr (x < y)
      | _ \<Rightarrow> Inl TypeError)"

text \<open>
  \<^verbatim>\<open>docs.sort(key=...)\<close> computes the key of each element once, then sorts stably,
  comparing keys with \<^verbatim>\<open><\<close> only; an exception of a comparison ends the sort. The
  order of a stable sort does not depend on the algorithm, and with the comparison above
  a list of two or more keys raises exactly when two of its keys cannot be compared, so the
  model sorts the pairs of key and document by insertion, from the right: an element goes in
  front of the first one that is not smaller.
\<close>

fun insort_lt :: "val \<times> doc \<Rightarrow> (val \<times> doc) list \<Rightarrow> error + (val \<times> doc) list" where
  "insort_lt x [] = Inr [x]"
| "insort_lt x (y # ys) =
     (case py_lt (fst y) (fst x) of
        Inl e \<Rightarrow> Inl e
      | Inr True \<Rightarrow> (case insort_lt x ys of Inl e \<Rightarrow> Inl e | Inr zs \<Rightarrow> Inr (y # zs))
      | Inr False \<Rightarrow> Inr (x # y # ys))"

fun sort_by_key :: "(val \<times> doc) list \<Rightarrow> error + (val \<times> doc) list" where
  "sort_by_key [] = Inr []"
| "sort_by_key (x # xs) =
     (case sort_by_key xs of Inl e \<Rightarrow> Inl e | Inr ys \<Rightarrow> insort_lt x ys)"

text \<open>
  \<^verbatim>\<open>
  def chat_history(conversation_id=None, owner_email=None, limit=Query(50, ge=1, le=200)):
      filt = {}
      if conversation_id:
          filt["conversation_id"] = conversation_id
      if owner_email:
          filt["owner_email"] = owner_email
      docs = get_documents("chatmessage", filt, limit)
      # Sort by created_at if present
      docs.sort(key=lambda d: d.get("created_at", datetime.utcnow()))
      return [_serialize(d) for d in docs]
  \<close>
  The default of \<^verbatim>\<open>d.get\<close> is evaluated for every document, so the clock is read once
  per document, in order: \<open>clock i\<close> is the reading for the document at position \<open>i\<close>.
\<close>

definition created_key :: "datetime \<Rightarrow> doc \<Rightarrow> val" where
  "created_key now d = (case map_of d ''created_at'' of None \<Rightarrow> VDatetime now | Some v \<Rightarrow> v)"

definition keyed :: "(nat \<Rightarrow> datetime) \<Rightarrow> doc list \<Rightarrow> (val \<times> doc) list" where
  "keyed clock docs = map (\<lambda>i. (created_key (clock i) (docs ! i), docs ! i)) [0..<length docs]"

definition history_filter :: "string option \<Rightarrow> string option \<Rightarrow> doc" where
  "history_filter conv owner =
     (if truthy conv then [(''conversation_id'', VStr (the conv))] else []) @ owner_filter owner"

definition sorted_history :: "store \<Rightarrow> (nat \<Rightarrow> datetime) \<Rightarrow> string option \<Rightarrow> string option \<Rightarrow> int option \<Rightarrow> error + doc list" where
  "sorted_history s clock conv owner given =
     (case query_limit 50 1 200 given of
        Inl e \<Rightarrow> Inl e
      | Inr limit \<Rightarrow>
          (case get_documents s ''chatmessage'' (history_filter conv owner) (nat limit) of
             Inl e \<Rightarrow> Inl e
           | Inr docs \<Rightarrow>
               (case sort_by_key (keyed clock docs) of
                  Inl e \<Rightarrow> Inl e
                | Inr ps \<Rightarrow> Inr (map snd ps))))"

definition chat_history :: "pylib \<Rightarrow> store \<Rightarrow> (nat \<Rightarrow> datetime) \<Rightarrow> string option \<Rightarrow> string option \<Rightarrow> int option \<Rightarrow> error + doc option list" where
  "chat_history L s clock conv owner given =
     (case sorted_history s clock conv owner given of
        Inl e \<Rightarrow> Inl e
      | Inr docs \<Rightarrow> Inr (map (\<lambda>d. serialize L (Some d)) docs))"

text \<open>The creation times of the documents of a sequence that carry one.\<close>

definition created_times :: "doc list \<Rightarrow> datetime list" where
  "created_times docs =
     concat (map (\<lambda>d. case map_of d ''created_at'' of Some (VDatetime t) \<Rightarrow> [t] | _ \<Rightarrow> []) docs)"

subsection \<open>Symptom checker\<close>

text \<open>
  \<^verbatim>\<open>
  def submit_symptoms(entry: SymptomCheck):
      count = len(entry.symptoms)
      sev_weight = {None: 0.2, "mild": 0.3, "moderate": 0.6, "severe": 0.85}[entry.severity]
      risk = min(1.0, 0.15 * count + sev_weight)
      assessment = (
          "Symptoms recorded. If symptoms worsen or you experience severe issues (e.g., chest pain, "
          "difficulty breathing), please seek immediate medical attention."
      )
      enriched = SymptomCheck(
          symptoms=entry.symptoms, duration=entry.duration, severity=entry.severity,
          notes=entry.notes, assessment=assessment, risk_score=risk,
          owner_email=entry.owner_email,
      )
      new_id = create_document("symptomcheck", enriched)
      return {"id": new_id, "risk_score": risk, "assessment": assessment}
  \<close>
\<close>

fun sev_weight :: "severity option \<Rightarrow> rat" where
  "sev_weight None = float_lit (2 / 10)"
| "sev_weight (Some Mild) = float_lit (3 / 10)"
| "sev_weight (Some Moderate) = float_lit (6 / 10)"
| "sev_weight (Some Severe) = float_lit (85 / 100)"

definition risk :: "SymptomCheck \<Rightarrow> rat" where
  "risk entry =
     (let count = int (length (SymptomCheck.symptoms entry))
      in min 1 (fadd (fmul (float_lit (15 / 100)) (float_of_int count))
                     (sev_weight (SymptomCheck.severity entry))))"

definition assessment_text :: string where
  "assessment_text =
     ''Symptoms recorded. If symptoms worsen or you experience severe issues (e.g., chest pain, '' @
     ''difficulty breathing), please seek immediate medical attention.''"

definition enriched :: "SymptomCheck \<Rightarrow> SymptomCheck" where
  "enriched entry =
     \<lparr>symptoms = SymptomCheck.symptoms entry,
      duration = SymptomCheck.duration entry,
      severity = SymptomCheck.severity entry,
      notes' = SymptomCheck.notes' entry,
      assessment = Some assessment_text,
      risk_score = Some (risk entry),
      owner_email = SymptomCheck.owner_email entry\<rparr>"

definition submit_symptoms :: "pylib \<Rightarrow> store \<Rightarrow> SymptomCheck \<Rightarrow> (error + doc) \<times> store" where
  "submit_symptoms L s entry =
     (case create_document L s ''symptomcheck'' (dump_SymptomCheck (enriched entry)) of
        (Inl e, s') \<Rightarrow> (Inl e, s')
      | (Inr new_id, s') \<Rightarrow>
          (Inr [(''id'', VStr new_id),
                (''risk_score'', VFloat (risk entry)),
                (''assessment'', VStr assessment_text)], s'))"

text \<open>
  The formula as the specification writes it, \<^verbatim>\<open>min(1, 0.15 * N + severityWeight)\<close> with the
  weights \<^verbatim>\<open>0.20\<close>, \<^verbatim>\<open>0.30\<close>, \<^verbatim>\<open>0.60\<close> and \<^verbatim>\<open>0.85\<close>, read over the rationals, that is,
  without rounding. It is the reference the handler's float computation is compared with.
\<close>

fun weight_spec :: "severity option \<Rightarrow> rat" where
  "weight_spec None = 20 / 100"
| "weight_spec (Some Mild) = 30 / 100"
| "weight_spec (Some Moderate) = 60 / 100"
| "weight_spec (Some Severe) = 85 / 100"

definition risk_spec :: "nat \<Rightarrow> severity option \<Rightarrow> rat" where
  "risk_spec n sev = min 1 (15 / 100 * of_nat n + weight_spec sev)"

section \<open>Sample data\<close>

text \<open>An empty store, a profile, and other data the evaluations below run on.\<close>

definition db0 :: database where
  "db0 = \<lparr>collections = (\<lambda>c. []), next_oid = 0\<rparr>"

definition alice :: UserProfile where
  "alice = \<lparr>UserProfile.name = ''Alice'', UserProfile.email = ''a@b.com'',
     UserProfile.phone = None, UserProfile.age = Some 30, UserProfile.gender = None,
     UserProfile.height_cm = None, UserProfile.weight_kg = None, UserProfile.theme = Dark,
     UserProfile.notifications_enabled = True\<rparr>"

definition hello :: ChatMessage where
  "hello = \<lparr>conversation_id = Some ''c1'', role = User, content = ''I have a cough'',
     ChatMessage.owner_email = Some ''a@b.com''\<rparr>"

definition age31 :: ProfileUpdate where
  "age31 = \<lparr>name = None, phone = None, age = Some 31, gender = None, height_cm = None,
     weight_kg = None, theme = None, notifications_enabled = None\<rparr>"

definition alicia :: ProfileUpdate where
  "alicia = \<lparr>name = Some ''Alicia'', phone = None, age = Some 31, gender = None, height_cm = None,
     weight_kg = None, theme = None, notifications_enabled = Some False\<rparr>"

definition db1 :: database where
  "db1 = \<lparr>collections = (\<lambda>c. if c = ''userprofile''
       then [[(''_id'', VObjectId 0), (''name'', VStr ''Alice''), (''email'', VStr ''a@b.com''),
              (''age'', VInt 30), (''theme'', VStr ''dark'')]]
       else []), next_oid = 1\<rparr>"

text \<open>
  What a document holds under a field after a merge: the given value, or what it held
  before when none is given.
\<close>

definition merged :: "('a \<Rightarrow> val) \<Rightarrow> 'a option \<Rightarrow> val option \<Rightarrow> val option" where
  "merged f given old = (case given of None \<Rightarrow> old | Some v \<Rightarrow> Some (f v))"

text \<open>The keys an update can write.\<close>

definition update_keys :: "string set" where
  "update_keys = {''updated_at'', ''name'', ''phone'', ''age'', ''gender'', ''height_cm'',
     ''weight_kg'', ''theme'', ''notifications_enabled''}"

definition cough_fever :: SymptomCheck where
  "cough_fever = \<lparr>symptoms = [''cough'', ''fever''], duration = None, severity = Some Moderate,
     notes' = None, assessment = Some ''all fine'', risk_score = Some 0,
     SymptomCheck.owner_email = None\<rparr>"

definition three_plain :: SymptomCheck where
  "three_plain = \<lparr>symptoms = [''cough'', ''fever'', ''headache''], duration = Some ''2 days'',
     severity = None, notes' = None, assessment = Some ''all fine'', risk_score = Some 0,
     SymptomCheck.owner_email = Some ''a@b.com''\<rparr>"



definition msg_at :: "nat \<Rightarrow> datetime \<Rightarrow> doc" where
  "msg_at n t = [(''_id'', VObjectId n), (''conversation_id'', VStr ''c1''),
     (''role'', VStr ''user''), (''content'', VStr ''hi''), (''created_at'', VDatetime t)]"

definition db3 :: database where
  "db3 = \<lparr>collections = (\<lambda>c. if c = ''chatmessage''
       then [msg_at 0 30, msg_at 1 10, msg_at 2 20] else []), next_oid = 3\<rparr>"

text \<open>One key is not above another: the later one is not smaller.\<close>

definition key_le :: "val \<times> doc \<Rightarrow> val \<times> doc \<Rightarrow> bool" where
  "key_le p q = (py_lt (fst q) (fst p) = Inr False)"

text \<open>A document whose creation time, when it has one, is a datetime.\<close>

definition timed :: "doc \<Rightarrow> bool" where
  "timed d = (case map_of d ''created_at'' of None \<Rightarrow> True | Some (VDatetime t) \<Rightarrow> True | Some v \<Rightarrow> False)"

section \<open>Properties of the serialization\<close>

lemma update_fresh: "k \<notin> fst ` set al \<Longrightarrow> AList.update k v al = al @ [(k, v)]"
  by (induction al) auto

lemma update_vals: "snd ` set (AList.update k v al) \<subseteq> insert v (snd ` set al)"
  by (induction al) auto

lemma step_as_update:
  "serialize_step L kv res = AList.update (fst (public_item L kv)) (snd (public_item L kv)) res"
  by (cases kv; cases "snd kv") (auto simp: public_item_def)

lemma public_val_not_datetime: "public_val L v \<noteq> VDatetime t"
  by (cases v) auto

lemma public_item_key: "fst (public_item L kv) \<noteq> ''_id''"
  by (auto simp: public_item_def)

lemma public_item_val: "snd (public_item L kv) \<noteq> VDatetime t"
  by (auto simp: public_item_def public_val_not_datetime)

lemma step_public: 
  assumes "public_doc res" shows "public_doc (serialize_step L kv res)"
proof -
  let ?k = "fst (public_item L kv)" and ?v = "snd (public_item L kv)"
  have 1: "is_dict (AList.update ?k ?v res)"
    using assms by (simp add: public_doc_def is_dict_def distinct_update)
  have 2: "''_id'' \<notin> fst ` set (AList.update ?k ?v res)"
    using assms public_item_key[of L kv] by (auto simp: public_doc_def dom_update)
  have 3: "VDatetime t \<notin> snd ` set (AList.update ?k ?v res)" for t
  proof
    assume "VDatetime t \<in> snd ` set (AList.update ?k ?v res)"
    then have "VDatetime t \<in> insert ?v (snd ` set res)"
      using update_vals[of ?k ?v res] by blast
    then show False
      using assms public_item_val[of L kv t] by (auto simp: public_doc_def)
  qed
  show ?thesis unfolding step_as_update public_doc_def using 1 2 3 by blast
qed

lemma fold_public: "public_doc res \<Longrightarrow> public_doc (fold (serialize_step L) d res)"
  by (induction d arbitrary: res) (auto simp: step_public simp del: serialize_step.simps)

lemma fold_append: "distinct (map fst d) \<Longrightarrow> fst ` set d \<inter> fst ` set acc = {} \<Longrightarrow> ''_id'' \<notin> fst ` set d 
  \<Longrightarrow> (\<forall>t. VDatetime t \<notin> snd ` set d) \<Longrightarrow> fold (serialize_step L) d acc = acc @ d"
proof (induction d arbitrary: acc)
  case Nil then show ?case by simp
next
  case (Cons kv d)
  obtain k v where kv: "kv = (k, v)" by (cases kv)
  have "serialize_step L kv acc = acc @ [kv]"
    using Cons.prems kv by (cases v) (auto simp: update_fresh)
  then show ?case using Cons kv by (auto simp: )
qed

lemma serialize_items_public: "public_doc (serialize_items L d)"
  unfolding serialize_items_def by (rule fold_public) (simp add: public_doc_def is_dict_def)

lemma serialize_items_fixed: "public_doc d \<Longrightarrow> serialize_items L d = d"
  unfolding serialize_items_def public_doc_def is_dict_def
  using fold_append[of d "[]" L] by simp

lemma serialize_items_idem: "serialize_items L (serialize_items L d) = serialize_items L d"
  by (simp add: serialize_items_fixed serialize_items_public)

lemma map_of_fold_step:
  "map_of (fold (serialize_step L) d acc) = map_of acc ++ map_of (rev (map (public_item L) d))"
proof (induction d arbitrary: acc)
  case Nil then show ?case by simp
next
  case (Cons kv d)
  let ?k = "fst (public_item L kv)" and ?v = "snd (public_item L kv)"
  have "map_of (fold (serialize_step L) (kv # d) acc)
      = map_of (serialize_step L kv acc) ++ map_of (rev (map (public_item L) d))"
    using Cons.IH[of "serialize_step L kv acc"] by (simp del: serialize_step.simps)
  also have "map_of (serialize_step L kv acc) = (map_of acc)(?k \<mapsto> ?v)"
    by (simp only: step_as_update update_conv')
  also have "(map_of acc)(?k \<mapsto> ?v) ++ map_of (rev (map (public_item L) d))
      = map_of acc ++ map_of (rev (map (public_item L) (kv # d)))"
    by (cases "public_item L kv") (simp add: map_add_def fun_eq_iff split: option.splits)
  finally show ?case .
qed

lemma map_of_serialize_items:
  "map_of (serialize_items L d) = map_of (rev (map (public_item L) d))"
  by (simp add: serialize_items_def map_of_fold_step)


lemma map_of_rev_distinct: "distinct (map fst xs) \<Longrightarrow> map_of (rev xs) = map_of xs"
  by (rule map_of_inject_set[THEN iffD2]) (simp_all add: distinct_rev rev_map[symmetric])

lemma public_keys_distinct:
  assumes "is_dict d" "''_id'' \<notin> fst ` set d \<or> ''id'' \<notin> fst ` set d"
  shows "distinct (map fst (map (public_item L) d))"
proof -
  let ?f = "\<lambda>k. if k = ''_id'' then ''id'' else k"
  have inj: "inj_on ?f (set (map fst d))"
    using assms(2) by (force simp: inj_on_def)
  have eq: "map fst (map (public_item L) d) = map ?f (map fst d)"
    by (simp add: public_item_def)
  have "distinct (map ?f (map fst d))"
    using assms(1) inj unfolding is_dict_def by (rule distinct_map[THEN iffD2, OF conjI])
  then show ?thesis by (simp only: eq)
qed

lemma public_item_id: "public_item L (''_id'', b) = (''id'', VStr (py_str L b))"
  by (simp add: public_item_def)

lemma public_item_other: "a \<noteq> ''_id'' \<Longrightarrow> public_item L (a, b) = (a, public_val L b)"
  by (simp add: public_item_def)

lemma map_of_public_items:
  assumes "''_id'' \<notin> fst ` set d \<or> ''id'' \<notin> fst ` set d"
  shows "map_of (map (public_item L) d) k = public_field L d k"
  using assms
proof (induction d)
  case Nil then show ?case by (simp add: public_field_def)
next
  case (Cons kv d)
  obtain a b where kv: "kv = (a, b)" by (cases kv)
  have IH: "map_of (map (public_item L) d) k = public_field L d k"
    using Cons by auto
  have none_id: "''_id'' \<notin> fst ` set d \<Longrightarrow> map_of d ''_id'' = None"
    by (simp add: map_of_eq_None_iff)
  have none_id2: "''id'' \<notin> fst ` set d \<Longrightarrow> map_of d ''id'' = None"
    by (simp add: map_of_eq_None_iff)
  show ?case
  proof (cases "a = ''_id''")
    case True
    then have nid: "''id'' \<notin> fst ` set d" using Cons.prems kv by auto
    show ?thesis using True kv IH none_id2[OF nid]
      by (auto simp: public_item_id public_field_def)
  next
    case False
    show ?thesis
    proof (cases "a = ''id''")
      case True
      then have "''_id'' \<notin> fst ` set d" using Cons.prems kv by auto
      then show ?thesis using True kv IH none_id
        by (auto simp: public_item_other public_field_def)
    next
      case F2: False
      then show ?thesis using False kv IH
        by (auto simp: public_item_other public_field_def)
    qed
  qed
qed

lemma serialize_fields:
  assumes "is_dict d" "''_id'' \<notin> fst ` set d \<or> ''id'' \<notin> fst ` set d"
  shows "map_of (serialize_items L d) k = public_field L d k"
  using assms
  by (simp add: map_of_serialize_items map_of_rev_distinct public_keys_distinct map_of_public_items
           del: map_map)

lemma serialize_spec:
  assumes "is_dict d" "''_id'' \<notin> fst ` set d \<or> ''id'' \<notin> fst ` set d"
  shows "toPublic_spec L d (serialize_items L d)"
proof -
  let ?r = "serialize_items L d"
  have f: "map_of ?r k = public_field L d k" for k
    using assms by (rule serialize_fields)
  have 1: "map_of ?r ''id'' = Some (VStr (py_str L v))" if "map_of d ''_id'' = Some v" for v
    using that by (simp add: f public_field_def)
  have 2: "map_of ?r ''_id'' = None"
    by (simp add: f public_field_def)
  have 3: "map_of ?r k = Some (public_val L v)" if "(k, v) \<in> set d" "k \<noteq> ''_id''" for k v
  proof -
    have kv: "map_of d k = Some v"
      using that(1) assms(1) by (simp add: is_dict_def)
    show ?thesis
    proof (cases "k = ''id''")
      case True
      then have "''id'' \<in> fst ` set d" using that(1) by force
      then have "map_of d ''_id'' = None"
        using assms(2) by (simp add: map_of_eq_None_iff)
      then show ?thesis using True kv by (simp add: f public_field_def)
    next
      case False
      then show ?thesis using that(2) kv by (simp add: f public_field_def)
    qed
  qed
  have "list_all (\<lambda>kv. fst kv = ''_id'' \<or> map_of ?r (fst kv) = Some (public_val L (snd kv))) d"
    unfolding list_all_iff using 3 by (metis prod.collapse)
  then show ?thesis
    using 1 2 by (simp add: toPublic_spec_def split: option.splits)
qed

lemma serialize_items_snoc:
  "serialize_items L (d @ [kv]) = serialize_step L kv (serialize_items L d)"
  by (simp add: serialize_items_def)

lemma map_of_serialize_snoc:
  "map_of (serialize_items L (d @ [kv])) =
     (map_of (serialize_items L d))(fst (public_item L kv) \<mapsto> snd (public_item L kv))"
  by (simp only: serialize_items_snoc step_as_update update_conv')

lemma serialize_id_field: "map_of (serialize_items L d) ''id'' = id_field L d"
proof (induction d rule: rev_induct)
  case Nil
  then show ?case by (simp add: serialize_items_def id_field_def)
next
  case (snoc kv d)
  obtain k v where kv: "kv = (k, v)" by (cases kv)
  show ?case
  proof (cases "k = ''_id''")
    case True
    then show ?thesis
      by (simp add: map_of_serialize_snoc kv public_item_id id_field_def)
  next
    case False
    show ?thesis
    proof (cases "k = ''id''")
      case True
      then show ?thesis
        by (simp add: map_of_serialize_snoc kv public_item_other id_field_def)
    next
      case F2: False
      then show ?thesis
        using False snoc.IH
        by (simp add: map_of_serialize_snoc kv public_item_other id_field_def)
    qed
  qed
qed

lemma serialize_no_store_id: "map_of (serialize_items L d) ''_id'' = None"
  using serialize_items_public [of L d]
  by (simp add: public_doc_def map_of_eq_None_iff)

lemma serialize_other_fields:
  assumes "is_dict d" "k \<noteq> ''id''" "k \<noteq> ''_id''"
  shows "map_of (serialize_items L d) k = map_option (public_val L) (map_of d k)"
  using assms(1)
proof (induction d rule: rev_induct)
  case Nil
  then show ?case by (simp add: serialize_items_def)
next
  case (snoc kv d)
  obtain a v where kv: "kv = (a, v)" by (cases kv)
  have dd: "is_dict d" and fresh: "a \<notin> fst ` set d"
    using snoc.prems kv by (auto simp: is_dict_def)
  have IH: "map_of (serialize_items L d) k = map_option (public_val L) (map_of d k)"
    using snoc.IH dd by simp
  show ?case
  proof (cases "a = k")
    case True
    then have "map_of d k = None" using fresh by (simp add: map_of_eq_None_iff)
    then show ?thesis
      using True assms(3) by (simp add: map_of_serialize_snoc kv public_item_other map_add_def)
  next
    case False
    have "fst (public_item L (a, v)) \<noteq> k"
      using False assms(2) by (simp add: public_item_def)
    then show ?thesis
      using False IH by (simp add: map_of_serialize_snoc kv map_add_def split: option.splits)
  qed
qed

lemma serialize_id_plain:
  assumes "is_dict d"
  shows "map_of d ''id'' = None \<Longrightarrow>
           map_of (serialize_items L d) ''id'' = map_option (\<lambda>v. VStr (py_str L v)) (map_of d ''_id'')"
    and "map_of d ''_id'' = None \<Longrightarrow>
           map_of (serialize_items L d) ''id'' = map_option (public_val L) (map_of d ''id'')"
proof -
  show "map_of (serialize_items L d) ''id'' = map_option (\<lambda>v. VStr (py_str L v)) (map_of d ''_id'')"
    if "map_of d ''id'' = None"
  proof -
    have "''id'' \<notin> fst ` set d" using that by (simp add: map_of_eq_None_iff)
    then have "map_of (serialize_items L d) ''id'' = public_field L d ''id''"
      using assms by (simp add: serialize_fields)
    then show ?thesis using that by (simp add: public_field_def)
  qed
  show "map_of (serialize_items L d) ''id'' = map_option (public_val L) (map_of d ''id'')"
    if "map_of d ''_id'' = None"
  proof -
    have "''_id'' \<notin> fst ` set d" using that by (simp add: map_of_eq_None_iff)
    then have "map_of (serialize_items L d) ''id'' = public_field L d ''id''"
      using assms by (simp add: serialize_fields)
    then show ?thesis using that by (simp add: public_field_def)
  qed
qed

text \<open>
  C4, as stated, fails: \<^verbatim>\<open>_serialize({"_id": "a1", "id": "b2"})\<close> is
  \<^verbatim>\<open>{"id": "b2"}\<close>. The identifier \<^verbatim>\<open>a1\<close> is not the field \<^verbatim>\<open>id\<close> of the result: the
  document's own field \<^verbatim>\<open>id\<close>, written later, replaced it. With the two fields in the
  other order the identifier stays and the field \<^verbatim>\<open>id\<close> does not pass through.
\<close>

theorem serialize_id_clash:
  "serialize lib0 (Some [(''_id'', VStr ''a1''), (''id'', VStr ''b2'')]) = Some [(''id'', VStr ''b2'')]
   \<and> \<not> toPublic_spec lib0 [(''_id'', VStr ''a1''), (''id'', VStr ''b2'')] [(''id'', VStr ''b2'')]
   \<and> serialize lib0 (Some [(''id'', VStr ''b2''), (''_id'', VStr ''a1'')]) = Some [(''id'', VStr ''a1'')]
   \<and> \<not> toPublic_spec lib0 [(''id'', VStr ''b2''), (''_id'', VStr ''a1'')] [(''id'', VStr ''a1'')]"
  by (simp add: serialize_def serialize_items_def toPublic_spec_def py_str_def)

text \<open>
  C4, amended: \<^verbatim>\<open>_serialize\<close> returns \<^verbatim>\<open>None\<close> on \<^verbatim>\<open>None\<close>, and applying it twice to
  any document equals applying it once. For every document, the result has no field
  \<^verbatim>\<open>_id\<close> and holds every field other than \<^verbatim>\<open>id\<close> and \<^verbatim>\<open>_id\<close> as the document
  does, a datetime as its ISO text and any other value unchanged. The field \<^verbatim>\<open>id\<close> of
  the result is the text of \<^verbatim>\<open>_id\<close> when the document has no field \<^verbatim>\<open>id\<close> of its own,
  the document's field \<^verbatim>\<open>id\<close> when it has no \<^verbatim>\<open>_id\<close>, and, when it has both, the one
  of the two that comes later in the document. So the sentence of the specification holds
  of every document that does not hold both fields.
\<close>

theorem serialize_public:
  "serialize L None = None
   \<and> serialize L (serialize L doc) = serialize L doc
   \<and> (is_dict d \<longrightarrow>
        (\<exists>r. serialize L (Some d) = Some r
           \<and> map_of r ''_id'' = None
           \<and> (\<forall>k. k \<noteq> ''id'' \<and> k \<noteq> ''_id'' \<longrightarrow>
                  map_of r k = map_option (public_val L) (map_of d k))
           \<and> (map_of d ''id'' = None \<longrightarrow>
                  map_of r ''id'' = map_option (\<lambda>v. VStr (py_str L v)) (map_of d ''_id''))
           \<and> (map_of d ''_id'' = None \<longrightarrow>
                  map_of r ''id'' = map_option (public_val L) (map_of d ''id''))
           \<and> map_of r ''id'' = id_field L d
           \<and> (map_of d ''id'' = None \<or> map_of d ''_id'' = None \<longrightarrow> toPublic_spec L d r)))"
proof (intro conjI impI)
  show "serialize L None = None"
    by (simp add: serialize_def)
  show "serialize L (serialize L doc) = serialize L doc"
    by (cases doc) (simp_all add: serialize_def serialize_items_idem)
next
  assume d: "is_dict d"
  let ?r = "serialize_items L d"
  have 1: "map_of ?r ''_id'' = None" by (rule serialize_no_store_id)
  have 2: "\<forall>k. k \<noteq> ''id'' \<and> k \<noteq> ''_id'' \<longrightarrow> map_of ?r k = map_option (public_val L) (map_of d k)"
    using serialize_other_fields [OF d] by simp
  have 3: "map_of d ''id'' = None \<longrightarrow>
      map_of ?r ''id'' = map_option (\<lambda>v. VStr (py_str L v)) (map_of d ''_id'')"
    using serialize_id_plain(1) [OF d] by simp
  have 4: "map_of d ''_id'' = None \<longrightarrow> map_of ?r ''id'' = map_option (public_val L) (map_of d ''id'')"
    using serialize_id_plain(2) [OF d] by simp
  have 5: "map_of ?r ''id'' = id_field L d" by (rule serialize_id_field)
  have 6: "map_of d ''id'' = None \<or> map_of d ''_id'' = None \<longrightarrow> toPublic_spec L d ?r"
  proof
    assume "map_of d ''id'' = None \<or> map_of d ''_id'' = None"
    then have "''_id'' \<notin> fst ` set d \<or> ''id'' \<notin> fst ` set d"
      by (auto simp: map_of_eq_None_iff)
    with d show "toPublic_spec L d ?r" by (rule serialize_spec)
  qed
  show "\<exists>r. serialize L (Some d) = Some r
           \<and> map_of r ''_id'' = None
           \<and> (\<forall>k. k \<noteq> ''id'' \<and> k \<noteq> ''_id'' \<longrightarrow>
                  map_of r k = map_option (public_val L) (map_of d k))
           \<and> (map_of d ''id'' = None \<longrightarrow>
                  map_of r ''id'' = map_option (\<lambda>v. VStr (py_str L v)) (map_of d ''_id''))
           \<and> (map_of d ''_id'' = None \<longrightarrow>
                  map_of r ''id'' = map_option (public_val L) (map_of d ''id''))
           \<and> map_of r ''id'' = id_field L d
           \<and> (map_of d ''id'' = None \<or> map_of d ''_id'' = None \<longrightarrow> toPublic_spec L d r)"
  proof (intro exI conjI)
    show "serialize L (Some d) = Some ?r" by (simp add: serialize_def)
    show "map_of ?r ''_id'' = None" by (rule 1)
    show "\<forall>k. k \<noteq> ''id'' \<and> k \<noteq> ''_id'' \<longrightarrow> map_of ?r k = map_option (public_val L) (map_of d k)"
      by (rule 2)
    show "map_of d ''id'' = None \<longrightarrow>
      map_of ?r ''id'' = map_option (\<lambda>v. VStr (py_str L v)) (map_of d ''_id'')" by (rule 3)
    show "map_of d ''_id'' = None \<longrightarrow> map_of ?r ''id'' = map_option (public_val L) (map_of d ''id'')"
      by (rule 4)
    show "map_of ?r ''id'' = id_field L d" by (rule 5)
    show "map_of d ''id'' = None \<or> map_of d ''_id'' = None \<longrightarrow> toPublic_spec L d ?r" by (rule 6)
  qed
qed

text \<open>
  The amended C4 on a stored chat message: the identifier becomes \<^verbatim>\<open>id\<close>, the creation
  time its ISO text, the content passes through. And on a document with both fields: the
  later one is the \<^verbatim>\<open>id\<close> of the result, the creation time is converted all the same.
\<close>

theorem serialize_public_witness:
  "serialize lib0 (Some [(''_id'', VObjectId 7), (''created_at'', VDatetime 5), (''content'', VStr ''hi'')])
     = Some [(''id'', VStr (py_str lib0 (VObjectId 7))), (''created_at'', VStr (isoformat lib0 5)),
             (''content'', VStr ''hi'')]
   \<and> toPublic_spec lib0
        [(''_id'', VObjectId 7), (''created_at'', VDatetime 5), (''content'', VStr ''hi'')]
        [(''id'', VStr (py_str lib0 (VObjectId 7))), (''created_at'', VStr (isoformat lib0 5)),
         (''content'', VStr ''hi'')]
   \<and> serialize lib0 (Some [(''_id'', VStr ''a1''), (''id'', VStr ''b2''), (''created_at'', VDatetime 5)])
     = Some [(''id'', VStr ''b2''), (''created_at'', VStr (isoformat lib0 5))]
   \<and> id_field lib0 [(''_id'', VStr ''a1''), (''id'', VStr ''b2''), (''created_at'', VDatetime 5)]
     = Some (VStr ''b2'')"
proof -
  let ?d = "[(''_id'', VObjectId 7), (''created_at'', VDatetime 5), (''content'', VStr ''hi'')]"
  let ?r = "[(''id'', VStr (py_str lib0 (VObjectId 7))), (''created_at'', VStr (isoformat lib0 5)),
             (''content'', VStr ''hi'')]"
  have si: "serialize_items lib0 ?d = ?r"
    by (simp add: serialize_items_def)
  have s: "serialize lib0 (Some ?d) = Some ?r"
    by (simp only: serialize_def option.case si)
  have "toPublic_spec lib0 ?d (serialize_items lib0 ?d)"
    using serialize_public [of lib0 None ?d] by (simp add: serialize_def is_dict_def)
  then have t: "toPublic_spec lib0 ?d ?r"
    by (simp only: si)
  have c: "serialize lib0 (Some [(''_id'', VStr ''a1''), (''id'', VStr ''b2''), (''created_at'', VDatetime 5)])
     = Some [(''id'', VStr ''b2''), (''created_at'', VStr (isoformat lib0 5))]"
    by (simp add: serialize_def serialize_items_def)
  have i: "id_field lib0 [(''_id'', VStr ''a1''), (''id'', VStr ''b2''), (''created_at'', VDatetime 5)]
     = Some (VStr ''b2'')"
    by (simp add: id_field_def)
  from s t c i show ?thesis by (intro conjI)
qed

section \<open>Properties of the store and the profile handlers\<close>

lemma take_one_filter_empty:
  "(take 1 (filter P xs) = []) = (\<forall>d \<in> set xs. \<not> P d)"
proof -
  have "(take 1 (filter P xs) = []) = (filter P xs = [])"
    by (cases "filter P xs") simp_all
  then show ?thesis by (simp only: filter_empty_conv)
qed

lemma matches_email: "matches [(''email'', v)] d = (map_of d ''email'' = Some v)"
  by (simp add: matches_def)

lemma dump_UserProfile_email:
  "map_of (stored_doc n (dump_UserProfile p)) ''email'' = Some (VStr (UserProfile.email p))"
  by (simp add: stored_doc_def set_fields_def dump_UserProfile_def)

lemma create_profile_connected:
  "create_profile L (Some db) profile =
     (if \<exists>d \<in> set (collections db ''userprofile''). map_of d ''email'' = Some (VStr (UserProfile.email profile))
      then (Inl Conflict, Some db)
      else (Inr [(''id'', VStr (py_str L (VObjectId (next_oid db))))],
            Some (db\<lparr>collections := (collections db)(''userprofile'' := collections db ''userprofile'' @
                       [stored_doc (next_oid db) (dump_UserProfile profile)]),
                     next_oid := Suc (next_oid db)\<rparr>)))"
  by (simp add: create_profile_def get_documents_def create_document_def Let_def
        take_one_filter_empty filter_empty_conv matches_email del: One_nat_def)

lemma stored_profile_fields:
  "map_of (stored_doc n (dump_UserProfile p)) ''_id'' = Some (VObjectId n)"
  "map_of (stored_doc n (dump_UserProfile p)) ''name'' = Some (VStr (UserProfile.name p))"
  "map_of (stored_doc n (dump_UserProfile p)) ''phone'' = map_option VStr (UserProfile.phone p)"
  "map_of (stored_doc n (dump_UserProfile p)) ''age'' = map_option VInt (UserProfile.age p)"
  "map_of (stored_doc n (dump_UserProfile p)) ''gender'' =
     (case UserProfile.gender p of
        None \<Rightarrow> None
      | Some Male \<Rightarrow> Some (VStr ''male'')
      | Some Female \<Rightarrow> Some (VStr ''female'')
      | Some Other \<Rightarrow> Some (VStr ''other'')
      | Some PreferNotToSay \<Rightarrow> Some (VStr ''prefer_not_to_say''))"
  "map_of (stored_doc n (dump_UserProfile p)) ''height_cm'' = map_option VFloat (UserProfile.height_cm p)"
  "map_of (stored_doc n (dump_UserProfile p)) ''weight_kg'' = map_option VFloat (UserProfile.weight_kg p)"
  "map_of (stored_doc n (dump_UserProfile p)) ''theme'' =
     Some (VStr (case UserProfile.theme p of Dark \<Rightarrow> ''dark'' | Light \<Rightarrow> ''light'' | System \<Rightarrow> ''system''))"
  "map_of (stored_doc n (dump_UserProfile p)) ''notifications_enabled'' =
     Some (VBool (UserProfile.notifications_enabled p))"
  by (simp_all add: stored_doc_def set_fields_def dump_UserProfile_def opt_def
      split: option.splits gender.splits theme.splits)

lemma stored_profile_keys:
  "k \<notin> {''_id'', ''name'', ''email'', ''phone'', ''age'', ''gender'', ''height_cm'', ''weight_kg'',
         ''theme'', ''notifications_enabled''} \<Longrightarrow>
   map_of (stored_doc n (dump_UserProfile p)) k = None"
  by (simp add: stored_doc_def set_fields_def dump_UserProfile_def map_of_eq_None_iff image_iff)

text \<open>
  C2: on a connected store, \<^verbatim>\<open>create_profile\<close> fails with the \<open>Conflict\<close> condition and
  leaves the store as it was when a stored profile has the same email; otherwise it appends
  one document to the collection and returns the new identifier. The document holds the
  new identifier and every field of the profile that has a value, with that value, and
  nothing else. A second creation with the same email, right after the first, fails with
  \<open>Conflict\<close> and writes nothing.
\<close>

theorem create_profile_unique:
  "let d = stored_doc (next_oid db) (dump_UserProfile profile)
   in create_profile L (Some db) profile =
     (if \<exists>x \<in> set (collections db ''userprofile''). map_of x ''email'' = Some (VStr (UserProfile.email profile))
      then (Inl Conflict, Some db)
      else (Inr [(''id'', VStr (py_str L (VObjectId (next_oid db))))],
            Some (db\<lparr>collections := (collections db)(''userprofile'' := collections db ''userprofile'' @ [d]),
                     next_oid := Suc (next_oid db)\<rparr>)))
   \<and> map_of d ''_id'' = Some (VObjectId (next_oid db))
   \<and> map_of d ''name'' = Some (VStr (UserProfile.name profile))
   \<and> map_of d ''email'' = Some (VStr (UserProfile.email profile))
   \<and> map_of d ''phone'' = map_option VStr (UserProfile.phone profile)
   \<and> map_of d ''age'' = map_option VInt (UserProfile.age profile)
   \<and> map_of d ''gender'' =
       (case UserProfile.gender profile of
          None \<Rightarrow> None
        | Some Male \<Rightarrow> Some (VStr ''male'')
        | Some Female \<Rightarrow> Some (VStr ''female'')
        | Some Other \<Rightarrow> Some (VStr ''other'')
        | Some PreferNotToSay \<Rightarrow> Some (VStr ''prefer_not_to_say''))
   \<and> map_of d ''height_cm'' = map_option VFloat (UserProfile.height_cm profile)
   \<and> map_of d ''weight_kg'' = map_option VFloat (UserProfile.weight_kg profile)
   \<and> map_of d ''theme'' =
       Some (VStr (case UserProfile.theme profile of
                     Dark \<Rightarrow> ''dark'' | Light \<Rightarrow> ''light'' | System \<Rightarrow> ''system''))
   \<and> map_of d ''notifications_enabled'' = Some (VBool (UserProfile.notifications_enabled profile))
   \<and> (\<forall>k. k \<notin> {''_id'', ''name'', ''email'', ''phone'', ''age'', ''gender'', ''height_cm'',
               ''weight_kg'', ''theme'', ''notifications_enabled''} \<longrightarrow> map_of d k = None)
   \<and> (UserProfile.email again = UserProfile.email profile \<longrightarrow>
        create_profile L (snd (create_profile L (Some db) profile)) again
          = (Inl Conflict, snd (create_profile L (Some db) profile)))"
proof -
  let ?d = "stored_doc (next_oid db) (dump_UserProfile profile)"
  have second: "create_profile L (snd (create_profile L (Some db) profile)) again
      = (Inl Conflict, snd (create_profile L (Some db) profile))"
    if eq: "UserProfile.email again = UserProfile.email profile"
  proof (cases "\<exists>x \<in> set (collections db ''userprofile''). map_of x ''email'' = Some (VStr (UserProfile.email profile))")
    case True
    then show ?thesis
      by (simp add: create_profile_connected eq)
  next
    case False
    then show ?thesis
      by (simp add: create_profile_connected eq dump_UserProfile_email)
  qed
  have keys: "\<forall>k. k \<notin> {''_id'', ''name'', ''email'', ''phone'', ''age'', ''gender'', ''height_cm'',
               ''weight_kg'', ''theme'', ''notifications_enabled''} \<longrightarrow> map_of ?d k = None"
  proof (intro allI impI)
    fix k
    assume "k \<notin> {''_id'', ''name'', ''email'', ''phone'', ''age'', ''gender'', ''height_cm'',
               ''weight_kg'', ''theme'', ''notifications_enabled''}"
    then show "map_of ?d k = None" by (rule stored_profile_keys)
  qed
  note f = stored_profile_fields [of "next_oid db" profile]
  show ?thesis
    unfolding Let_def
  proof (intro conjI)
    show "create_profile L (Some db) profile =
     (if \<exists>x \<in> set (collections db ''userprofile''). map_of x ''email'' = Some (VStr (UserProfile.email profile))
      then (Inl Conflict, Some db)
      else (Inr [(''id'', VStr (py_str L (VObjectId (next_oid db))))],
            Some (db\<lparr>collections := (collections db)(''userprofile'' := collections db ''userprofile'' @ [?d]),
                     next_oid := Suc (next_oid db)\<rparr>)))"
      by (rule create_profile_connected)
    show "map_of ?d ''_id'' = Some (VObjectId (next_oid db))" by (rule f(1))
    show "map_of ?d ''name'' = Some (VStr (UserProfile.name profile))" by (rule f(2))
    show "map_of ?d ''email'' = Some (VStr (UserProfile.email profile))"
      by (rule dump_UserProfile_email)
    show "map_of ?d ''phone'' = map_option VStr (UserProfile.phone profile)" by (rule f(3))
    show "map_of ?d ''age'' = map_option VInt (UserProfile.age profile)" by (rule f(4))
    show "map_of ?d ''gender'' =
       (case UserProfile.gender profile of
          None \<Rightarrow> None
        | Some Male \<Rightarrow> Some (VStr ''male'')
        | Some Female \<Rightarrow> Some (VStr ''female'')
        | Some Other \<Rightarrow> Some (VStr ''other'')
        | Some PreferNotToSay \<Rightarrow> Some (VStr ''prefer_not_to_say''))" by (rule f(5))
    show "map_of ?d ''height_cm'' = map_option VFloat (UserProfile.height_cm profile)" by (rule f(6))
    show "map_of ?d ''weight_kg'' = map_option VFloat (UserProfile.weight_kg profile)" by (rule f(7))
    show "map_of ?d ''theme'' =
       Some (VStr (case UserProfile.theme profile of
                     Dark \<Rightarrow> ''dark'' | Light \<Rightarrow> ''light'' | System \<Rightarrow> ''system''))" by (rule f(8))
    show "map_of ?d ''notifications_enabled'' = Some (VBool (UserProfile.notifications_enabled profile))"
      by (rule f(9))
    show "\<forall>k. k \<notin> {''_id'', ''name'', ''email'', ''phone'', ''age'', ''gender'', ''height_cm'',
               ''weight_kg'', ''theme'', ''notifications_enabled''} \<longrightarrow> map_of ?d k = None"
      by (rule keys)
    show "UserProfile.email again = UserProfile.email profile \<longrightarrow>
        create_profile L (snd (create_profile L (Some db) profile)) again
          = (Inl Conflict, snd (create_profile L (Some db) profile))"
      using second by blast
  qed
qed

text \<open>
  C2 on the empty store: the first creation of a profile returns the identifier and stores
  the profile, the second one with the same email is a \<open>Conflict\<close>.
\<close>

theorem create_profile_unique_witness:
  "fst (create_profile lib0 (Some db0) alice) = Inr [(''id'', VStr (py_str lib0 (VObjectId 0)))]
   \<and> collections (the (snd (create_profile lib0 (Some db0) alice))) ''userprofile'' =
       [[(''_id'', VObjectId 0), (''name'', VStr ''Alice''), (''email'', VStr ''a@b.com''),
         (''age'', VInt 30), (''theme'', VStr ''dark''), (''notifications_enabled'', VBool True)]]
   \<and> fst (create_profile lib0 (snd (create_profile lib0 (Some db0) alice)) alice) = Inl Conflict"
proof -
  note t = create_profile_unique [of db0 alice lib0 alice, unfolded Let_def]
  have c: "create_profile lib0 (Some db0) alice =
      (Inr [(''id'', VStr (py_str lib0 (VObjectId 0)))],
       Some (db0\<lparr>collections := (collections db0)(''userprofile'' := collections db0 ''userprofile'' @
                 [stored_doc (next_oid db0) (dump_UserProfile alice)]),
               next_oid := Suc (next_oid db0)\<rparr>))"
    using t [THEN conjunct1] by (simp add: db0_def)
  have 1: "fst (create_profile lib0 (Some db0) alice) = Inr [(''id'', VStr (py_str lib0 (VObjectId 0)))]"
    by (simp only: c fst_conv)
  have 2: "collections (the (snd (create_profile lib0 (Some db0) alice))) ''userprofile'' =
       [[(''_id'', VObjectId 0), (''name'', VStr ''Alice''), (''email'', VStr ''a@b.com''),
         (''age'', VInt 30), (''theme'', VStr ''dark''), (''notifications_enabled'', VBool True)]]"
    unfolding c
    by (simp add: db0_def alice_def stored_doc_def set_fields_def dump_UserProfile_def opt_def)
  have "create_profile lib0 (snd (create_profile lib0 (Some db0) alice)) alice
          = (Inl Conflict, snd (create_profile lib0 (Some db0) alice))"
    using t by blast
  then have 3: "fst (create_profile lib0 (snd (create_profile lib0 (Some db0) alice)) alice) = Inl Conflict"
    by (simp only: fst_conv)
  from 1 2 3 show ?thesis by blast
qed

section \<open>Properties of the chat handler\<close>

lemma chat_connected:
  "chat L (Some db) message =
     (Inr [(''user_message_id'', VStr (py_str L (VObjectId (next_oid db)))),
           (''assistant_message_id'', VStr (py_str L (VObjectId (Suc (next_oid db))))),
           (''reply'', VStr reply_text)],
      Some (db\<lparr>collections := (collections db)(''chatmessage'' := collections db ''chatmessage'' @
                 [stored_doc (next_oid db) (dump_ChatMessage message),
                  stored_doc (Suc (next_oid db)) (dump_ChatMessage (assistant_msg message))]),
               next_oid := Suc (Suc (next_oid db))\<rparr>))"
  by (simp add: chat_def create_document_def Let_def)

lemma stored_message_fields:
  "map_of (stored_doc n (dump_ChatMessage m)) ''_id'' = Some (VObjectId n)"
  "map_of (stored_doc n (dump_ChatMessage m)) ''role'' = Some (VStr (role_str (ChatMessage.role m)))"
  "map_of (stored_doc n (dump_ChatMessage m)) ''content'' = Some (VStr (ChatMessage.content m))"
  "map_of (stored_doc n (dump_ChatMessage m)) ''conversation_id'' = map_option VStr (ChatMessage.conversation_id m)"
  "map_of (stored_doc n (dump_ChatMessage m)) ''owner_email'' = map_option VStr (ChatMessage.owner_email m)"
  by (simp_all add: stored_doc_def set_fields_def dump_ChatMessage_def opt_def split: option.splits)

lemma stored_message_keys:
  "fst ` set (stored_doc n (dump_ChatMessage m))
     \<subseteq> {''_id'', ''conversation_id'', ''role'', ''content'', ''owner_email''}"
  by (auto simp: stored_doc_def set_fields_def dump_ChatMessage_def)

text \<open>
  C3: on a connected store, \<^verbatim>\<open>chat\<close> with a message of role \<^verbatim>\<open>user\<close> appends two
  documents to the collection \<^verbatim>\<open>chatmessage\<close> and changes no other collection: the
  submitted message, field by field, and one reply with role \<^verbatim>\<open>assistant\<close>, the fixed
  text \<open>reply_text\<close> as content, and the conversation_id and owner_email of the submitted
  message. It returns the two identifiers and the reply text.
\<close>

theorem chat_user_pair:
  assumes "ChatMessage.role message = User"
  shows "let u = stored_doc (next_oid db) (dump_ChatMessage message);
             a = stored_doc (Suc (next_oid db)) (dump_ChatMessage (assistant_msg message))
   in chat L (Some db) message =
     (Inr [(''user_message_id'', VStr (py_str L (VObjectId (next_oid db)))),
           (''assistant_message_id'', VStr (py_str L (VObjectId (Suc (next_oid db))))),
           (''reply'', VStr reply_text)],
      Some (db\<lparr>collections := (collections db)(''chatmessage'' := collections db ''chatmessage'' @ [u, a]),
               next_oid := Suc (Suc (next_oid db))\<rparr>))
   \<and> map_of u ''role'' = Some (VStr ''user'')
   \<and> map_of u ''content'' = Some (VStr (ChatMessage.content message))
   \<and> map_of u ''conversation_id'' = map_option VStr (ChatMessage.conversation_id message)
   \<and> map_of u ''owner_email'' = map_option VStr (ChatMessage.owner_email message)
   \<and> map_of a ''_id'' = Some (VObjectId (Suc (next_oid db)))
   \<and> map_of a ''role'' = Some (VStr ''assistant'')
   \<and> map_of a ''content'' = Some (VStr reply_text)
   \<and> map_of a ''conversation_id'' = map_of u ''conversation_id''
   \<and> map_of a ''owner_email'' = map_of u ''owner_email''"
  using assms
  by (simp add: Let_def chat_connected stored_message_fields assistant_msg_def)

text \<open>C3 on the empty store and a message of a user: the two stored documents.\<close>

theorem chat_user_pair_witness:
  "fst (chat lib0 (Some db0) hello) =
     Inr [(''user_message_id'', VStr (py_str lib0 (VObjectId 0))),
          (''assistant_message_id'', VStr (py_str lib0 (VObjectId 1))),
          (''reply'', VStr reply_text)]
   \<and> collections (the (snd (chat lib0 (Some db0) hello))) ''chatmessage'' =
       [[(''_id'', VObjectId 0), (''conversation_id'', VStr ''c1''), (''role'', VStr ''user''),
         (''content'', VStr ''I have a cough''), (''owner_email'', VStr ''a@b.com'')],
        [(''_id'', VObjectId 1), (''conversation_id'', VStr ''c1''), (''role'', VStr ''assistant''),
         (''content'', VStr reply_text), (''owner_email'', VStr ''a@b.com'')]]"
proof -
  have r: "ChatMessage.role hello = User" by (simp add: hello_def)
  have c: "chat lib0 (Some db0) hello =
     (Inr [(''user_message_id'', VStr (py_str lib0 (VObjectId (next_oid db0)))),
           (''assistant_message_id'', VStr (py_str lib0 (VObjectId (Suc (next_oid db0))))),
           (''reply'', VStr reply_text)],
      Some (db0\<lparr>collections := (collections db0)(''chatmessage'' := collections db0 ''chatmessage'' @
                 [stored_doc (next_oid db0) (dump_ChatMessage hello),
                  stored_doc (Suc (next_oid db0)) (dump_ChatMessage (assistant_msg hello))]),
               next_oid := Suc (Suc (next_oid db0))\<rparr>))"
    using chat_user_pair [OF r, of db0 lib0] by (simp only: Let_def)
  show ?thesis
    unfolding c
    by (simp add: db0_def hello_def stored_doc_def set_fields_def dump_ChatMessage_def
        opt_def assistant_msg_def)
qed

text \<open>
  C9: \<^verbatim>\<open>chat\<close> does not look at the role. A message of role \<^verbatim>\<open>assistant\<close> is stored as
  submitted and still gets one stored reply of role \<^verbatim>\<open>assistant\<close> with the same
  conversation_id and owner_email; the reply and the response are those of the same message
  sent with role \<^verbatim>\<open>user\<close>.
\<close>

theorem chat_assistant_pair:
  assumes "ChatMessage.role message = Assistant"
  shows "let u = stored_doc (next_oid db) (dump_ChatMessage message);
             a = stored_doc (Suc (next_oid db)) (dump_ChatMessage (assistant_msg message))
   in chat L (Some db) message =
     (Inr [(''user_message_id'', VStr (py_str L (VObjectId (next_oid db)))),
           (''assistant_message_id'', VStr (py_str L (VObjectId (Suc (next_oid db))))),
           (''reply'', VStr reply_text)],
      Some (db\<lparr>collections := (collections db)(''chatmessage'' := collections db ''chatmessage'' @ [u, a]),
               next_oid := Suc (Suc (next_oid db))\<rparr>))
   \<and> map_of u ''role'' = Some (VStr ''assistant'')
   \<and> assistant_msg message = assistant_msg (message\<lparr>role := User\<rparr>)
   \<and> map_of a ''role'' = Some (VStr ''assistant'')
   \<and> map_of a ''content'' = Some (VStr reply_text)
   \<and> map_of a ''conversation_id'' = map_of u ''conversation_id''
   \<and> map_of a ''owner_email'' = map_of u ''owner_email''
   \<and> fst (chat L (Some db) message) = fst (chat L (Some db) (message\<lparr>role := User\<rparr>))"
  using assms
  by (simp add: Let_def chat_connected stored_message_fields assistant_msg_def)

text \<open>C9 on the empty store: an assistant message and its assistant reply.\<close>

theorem chat_assistant_pair_witness:
  "fst (chat lib0 (Some db0) (hello\<lparr>role := Assistant\<rparr>)) = fst (chat lib0 (Some db0) hello)
   \<and> collections (the (snd (chat lib0 (Some db0) (hello\<lparr>role := Assistant\<rparr>)))) ''chatmessage'' =
       [[(''_id'', VObjectId 0), (''conversation_id'', VStr ''c1''), (''role'', VStr ''assistant''),
         (''content'', VStr ''I have a cough''), (''owner_email'', VStr ''a@b.com'')],
        [(''_id'', VObjectId 1), (''conversation_id'', VStr ''c1''), (''role'', VStr ''assistant''),
         (''content'', VStr reply_text), (''owner_email'', VStr ''a@b.com'')]]"
proof -
  let ?m = "hello\<lparr>role := Assistant\<rparr>"
  have r: "ChatMessage.role ?m = Assistant" by simp
  have u: "?m\<lparr>role := User\<rparr> = hello" by (simp add: hello_def)
  note t = chat_assistant_pair [OF r, of db0 lib0, unfolded Let_def u]
  have c: "chat lib0 (Some db0) ?m =
     (Inr [(''user_message_id'', VStr (py_str lib0 (VObjectId (next_oid db0)))),
           (''assistant_message_id'', VStr (py_str lib0 (VObjectId (Suc (next_oid db0))))),
           (''reply'', VStr reply_text)],
      Some (db0\<lparr>collections := (collections db0)(''chatmessage'' := collections db0 ''chatmessage'' @
                 [stored_doc (next_oid db0) (dump_ChatMessage ?m),
                  stored_doc (Suc (next_oid db0)) (dump_ChatMessage (assistant_msg ?m))]),
               next_oid := Suc (Suc (next_oid db0))\<rparr>))"
    using t by (rule conjunct1)
  have f: "fst (chat lib0 (Some db0) ?m) = fst (chat lib0 (Some db0) hello)"
    using t by blast
  have "collections (the (snd (chat lib0 (Some db0) ?m))) ''chatmessage'' =
       [[(''_id'', VObjectId 0), (''conversation_id'', VStr ''c1''), (''role'', VStr ''assistant''),
         (''content'', VStr ''I have a cough''), (''owner_email'', VStr ''a@b.com'')],
        [(''_id'', VObjectId 1), (''conversation_id'', VStr ''c1''), (''role'', VStr ''assistant''),
         (''content'', VStr reply_text), (''owner_email'', VStr ''a@b.com'')]]"
    unfolding c
    by (simp add: db0_def hello_def stored_doc_def set_fields_def dump_ChatMessage_def
        opt_def assistant_msg_def)
  with f show ?thesis by (rule conjI)
qed

section \<open>Properties of the profile update\<close>

lemma find_one_none:
  "(find_one docs [(''email'', v)] = None) = (\<forall>d \<in> set docs. map_of d ''email'' \<noteq> Some v)"
  by (auto simp: find_one_def find_None_iff matches_email)

text \<open>
  C6: when no stored profile has the email of the request, \<^verbatim>\<open>update_profile\<close> fails with
  \<open>NotFound\<close> and leaves the store as it was, whatever the body.
\<close>

theorem update_profile_not_found:
  assumes "\<forall>d \<in> set (collections db ''userprofile''). map_of d ''email'' \<noteq> Some (VStr e)"
  shows "update_profile (Some db) now e changes = (Inl NotFound, Some db)"
  using assms by (simp add: update_profile_def Let_def find_one_none)

text \<open>C6 on the empty store, with the body \<^verbatim>\<open>{"age": 31}\<close>.\<close>

theorem update_profile_not_found_witness:
  "update_profile (Some db0) 5 ''a@b.com'' age31 = (Inl NotFound, Some db0)"
  using update_profile_not_found [of db0 "''a@b.com''" 5 age31]
  by (simp add: db0_def)

lemma map_of_apply_set:
  "map_of (apply_set data d) = map_of d ++ map_of (rev data)"
proof (induction data arbitrary: d)
  case Nil then show ?case by (simp add: apply_set_def)
next
  case (Cons kv data)
  have "map_of (apply_set (kv # data) d) = map_of (apply_set data (AList.update (fst kv) (snd kv) d))"
    by (simp add: apply_set_def)
  also have "\<dots> = (map_of d)(fst kv \<mapsto> snd kv) ++ map_of (rev data)"
    by (simp only: Cons.IH update_conv')
  also have "\<dots> = map_of d ++ map_of (rev (kv # data))"
    by (cases kv) (simp add: map_add_def fun_eq_iff split: option.splits)
  finally show ?case .
qed

lemma apply_set_distinct:
  "distinct (map fst data) \<Longrightarrow>
   map_of (apply_set data d) k = (case map_of data k of None \<Rightarrow> map_of d k | Some v \<Rightarrow> Some v)"
  by (simp add: map_of_apply_set map_of_rev_distinct map_add_def)

lemma bson_doc_Cons:
  "bson_doc (kv # kvs) = Inr ys \<Longrightarrow>
     \<exists>v r. bson_val (snd kv) = Inr v \<and> bson_doc kvs = Inr r \<and> ys = (fst kv, v) # r"
  by (cases "bson_val (snd kv)"; cases "bson_doc kvs") simp_all

lemma bson_doc_keys: "bson_doc xs = Inr ys \<Longrightarrow> map fst ys = map fst xs"
proof (induction xs arbitrary: ys)
  case Nil then show ?case by simp
next
  case (Cons kv kvs)
  from bson_doc_Cons [OF Cons.prems] obtain v r
    where "bson_doc kvs = Inr r" "ys = (fst kv, v) # r" by blast
  then show ?case using Cons.IH by simp
qed

lemma bson_doc_map_of:
  "bson_doc xs = Inr ys \<Longrightarrow>
     map_of ys k = (case map_of xs k of None \<Rightarrow> None | Some v \<Rightarrow> Some (projr (bson_val v)))"
proof (induction xs arbitrary: ys)
  case Nil then show ?case by simp
next
  case (Cons kv kvs)
  from bson_doc_Cons [OF Cons.prems] obtain v r
    where v: "bson_val (snd kv) = Inr v" and r: "bson_doc kvs = Inr r" and ys: "ys = (fst kv, v) # r"
    by blast
  show ?case
    using Cons.IH [OF r] v ys by (cases kv) simp
qed

lemma bson_doc_ok:
  "\<forall>kv \<in> set xs. \<exists>v. bson_val (snd kv) = Inr v \<Longrightarrow> \<exists>ys. bson_doc xs = Inr ys"
proof (induction xs)
  case Nil then show ?case by simp
next
  case (Cons kv kvs)
  obtain v where "bson_val (snd kv) = Inr v" using Cons.prems by auto
  moreover obtain r where "bson_doc kvs = Inr r" using Cons by auto
  ultimately show ?case by simp
qed

lemma bson_doc_overflow:
  "(k, VInt i) \<in> set xs \<Longrightarrow> \<not> int64 i \<Longrightarrow> \<exists>e. bson_doc xs = Inl e"
proof (induction xs)
  case Nil then show ?case by simp
next
  case (Cons kv kvs)
  show ?case
  proof (cases "kv = (k, VInt i)")
    case True
    then show ?thesis using Cons.prems(2) by simp
  next
    case False
    then obtain e where "bson_doc kvs = Inl e" using Cons by auto
    then show ?thesis by (cases "bson_val (snd kv)") simp_all
  qed
qed

lemma update_data_keys: "distinct (map fst (update_data now changes))"
  by (simp add: update_data_def distinct_update distinct_map_filter dump_ProfileUpdate_def)

lemma map_of_filter_set:
  "distinct (map fst xs) \<Longrightarrow>
   map_of (filter (\<lambda>kv. snd kv \<noteq> VNone) xs) k =
     (case map_of xs k of None \<Rightarrow> None | Some v \<Rightarrow> if v = VNone then None else Some v)"
proof (induction xs)
  case Nil then show ?case by simp
next
  case (Cons a xs)
  then show ?case
    by (cases a) (auto simp: map_of_eq_None_iff image_iff split: option.splits)
qed

lemma map_of_update_data:
  "map_of (update_data now changes) k =
     (if k = ''updated_at'' then Some (VDatetime now)
      else case map_of (dump_ProfileUpdate changes) k of
             None \<Rightarrow> None
           | Some v \<Rightarrow> if v = VNone then None else Some v)"
proof -
  have d: "distinct (map fst (dump_ProfileUpdate changes))"
    by (simp add: dump_ProfileUpdate_def)
  show ?thesis
    by (simp add: update_data_def update_conv' map_of_filter_set [OF d])
qed

lemma update_data_values:
  assumes "(k, v) \<in> set (update_data now changes)"
  shows "v = VDatetime now \<or> (\<exists>x. v = VStr x) \<or> (\<exists>x. v = VFloat x) \<or> (\<exists>x. v = VBool x)
         \<or> (\<exists>a. v = VInt a \<and> ProfileUpdate.age changes = Some a)"
proof -
  have "map_of (update_data now changes) k = Some v"
    using assms update_data_keys by simp
  then show ?thesis
    by (auto simp: map_of_update_data dump_ProfileUpdate_def opt_def split: if_splits option.splits)
qed

lemma update_data_encodes:
  assumes "case ProfileUpdate.age changes of None \<Rightarrow> True | Some a \<Rightarrow> int64 a"
  shows "\<exists>stored. bson_doc (update_data now changes) = Inr stored"
proof (rule bson_doc_ok, rule ballI)
  fix kv assume "kv \<in> set (update_data now changes)"
  then have "(fst kv, snd kv) \<in> set (update_data now changes)" by simp
  from update_data_values [OF this] show "\<exists>v. bson_val (snd kv) = Inr v"
    using assms by auto
qed

lemma update_data_overflow:
  assumes "ProfileUpdate.age changes = Some a" "\<not> int64 a"
  shows "\<exists>e. bson_doc (update_data now changes) = Inl e"
proof -
  have "map_of (update_data now changes) ''age'' = Some (VInt a)"
    using assms(1) by (simp add: map_of_update_data dump_ProfileUpdate_def opt_def)
  then have "(''age'', VInt a) \<in> set (update_data now changes)"
    by (rule map_of_SomeD)
  then show ?thesis using assms(2) by (rule bson_doc_overflow)
qed

lemma stored_fields:
  assumes "bson_doc (update_data now changes) = Inr stored"
  shows "distinct (map fst stored)"
    and "map_of stored ''updated_at'' = Some (VDatetime (millis now))"
    and "map_of stored ''name'' = map_option VStr (ProfileUpdate.name changes)"
    and "map_of stored ''phone'' = map_option VStr (ProfileUpdate.phone changes)"
    and "map_of stored ''age'' = map_option VInt (ProfileUpdate.age changes)"
    and "map_of stored ''gender'' = map_option VStr (ProfileUpdate.gender changes)"
    and "map_of stored ''height_cm'' = map_option VFloat (ProfileUpdate.height_cm changes)"
    and "map_of stored ''weight_kg'' = map_option VFloat (ProfileUpdate.weight_kg changes)"
    and "map_of stored ''theme'' = map_option VStr (ProfileUpdate.theme changes)"
    and "map_of stored ''notifications_enabled'' = map_option VBool (ProfileUpdate.notifications_enabled changes)"
    and "k \<notin> update_keys \<Longrightarrow> map_of stored k = None"
proof -
  note m = bson_doc_map_of [OF assms] map_of_update_data dump_ProfileUpdate_def opt_def
  show "distinct (map fst stored)"
    using bson_doc_keys [OF assms] update_data_keys by simp
  show "map_of stored ''updated_at'' = Some (VDatetime (millis now))"
    by (simp add: m)
  show "map_of stored ''name'' = map_option VStr (ProfileUpdate.name changes)"
    by (simp add: m split: option.splits)
  show "map_of stored ''phone'' = map_option VStr (ProfileUpdate.phone changes)"
    by (simp add: m split: option.splits)
  show "map_of stored ''gender'' = map_option VStr (ProfileUpdate.gender changes)"
    by (simp add: m split: option.splits)
  show "map_of stored ''height_cm'' = map_option VFloat (ProfileUpdate.height_cm changes)"
    by (simp add: m split: option.splits)
  show "map_of stored ''weight_kg'' = map_option VFloat (ProfileUpdate.weight_kg changes)"
    by (simp add: m split: option.splits)
  show "map_of stored ''theme'' = map_option VStr (ProfileUpdate.theme changes)"
    by (simp add: m split: option.splits)
  show "map_of stored ''notifications_enabled'' = map_option VBool (ProfileUpdate.notifications_enabled changes)"
    by (simp add: m split: option.splits)
  show "map_of stored k = None" if "k \<notin> update_keys"
    using that by (simp add: m update_keys_def)
  show "map_of stored ''age'' = map_option VInt (ProfileUpdate.age changes)"
  proof (cases "ProfileUpdate.age changes")
    case None
    then show ?thesis by (simp add: m)
  next
    case (Some a)
    have "int64 a"
      using update_data_overflow [OF Some, of now] assms by auto
    then show ?thesis using Some by (simp add: m)
  qed
qed

lemma find_one_first:
  assumes "\<forall>x \<in> set pre. map_of x ''email'' \<noteq> Some v" "map_of d ''email'' = Some v"
  shows "find_one (pre @ d # post) [(''email'', v)] = Some d"
  using assms by (induction pre) (simp_all add: find_one_def matches_email)

lemma set_first_first:
  assumes "\<forall>x \<in> set pre. map_of x ''email'' \<noteq> Some v" "map_of d ''email'' = Some v"
  shows "set_first (pre @ d # post) [(''email'', v)] data = pre @ apply_set data d # post"
  using assms by (induction pre) (simp_all add: matches_email)

lemma update_profile_first:
  assumes "collections db ''userprofile'' = pre @ d # post"
    and "\<forall>x \<in> set pre. map_of x ''email'' \<noteq> Some (VStr e)"
    and "map_of d ''email'' = Some (VStr e)"
  shows "update_profile (Some db) now e changes =
     (case bson_doc (update_data now changes) of
        Inl err \<Rightarrow> (Inl err, Some db)
      | Inr stored \<Rightarrow>
          (Inr [(''ok'', VBool True)],
           Some (db\<lparr>collections := (collections db)
                    (''userprofile'' := pre @ apply_set stored d # post)\<rparr>)))"
proof -
  have f: "find_one (collections db ''userprofile'') [(''email'', VStr e)] = Some d"
    unfolding assms(1) using assms(2,3) by (rule find_one_first)
  have ne: "d \<noteq> []" using assms(3) by auto
  have u: "set_first (collections db ''userprofile'') [(''email'', VStr e)] stored
      = pre @ apply_set stored d # post" for stored
    unfolding assms(1) using assms(2,3) by (rule set_first_first)
  show ?thesis
    by (simp add: update_profile_def Let_def f ne u update_one_def split: sum.splits)
qed

text \<open>An age that does not fit eight bytes: the driver raises, and nothing is written.\<close>

lemma update_profile_overflow:
  assumes "collections db ''userprofile'' = pre @ d # post"
    and "\<forall>x \<in> set pre. map_of x ''email'' \<noteq> Some (VStr e)"
    and "map_of d ''email'' = Some (VStr e)"
    and "ProfileUpdate.age changes = Some a" "\<not> int64 a"
  shows "\<exists>err. update_profile (Some db) now e changes = (Inl err, Some db)"
proof -
  obtain err where "bson_doc (update_data now changes) = Inl err"
    using update_data_overflow [OF assms(4,5)] by blast
  then show ?thesis
    by (simp add: update_profile_first [OF assms(1,2,3)])
qed

text \<open>
  C7: when \<open>d\<close> is the first stored profile with the email of the request, a successful
  \<^verbatim>\<open>update_profile\<close> replaces \<open>d\<close> and nothing else. The new document holds the clock's
  reading, in the store's milliseconds, under \<^verbatim>\<open>updated_at\<close>; under each of the eight
  fields of the body the value the body gives, or the value of \<open>d\<close> when the body gives
  none or \<^verbatim>\<open>None\<close>; and the value of \<open>d\<close> under every other key.
\<close>

theorem update_profile_merge:
  assumes "collections db ''userprofile'' = pre @ d # post"
    and "\<forall>x \<in> set pre. map_of x ''email'' \<noteq> Some (VStr e)"
    and "map_of d ''email'' = Some (VStr e)"
    and "fst (update_profile (Some db) now e changes) = Inr r"
  shows "\<exists>d'. update_profile (Some db) now e changes =
           (Inr [(''ok'', VBool True)],
            Some (db\<lparr>collections := (collections db)(''userprofile'' := pre @ d' # post)\<rparr>))
     \<and> map_of d' ''updated_at'' = Some (VDatetime (millis now))
     \<and> map_of d' ''name'' = merged VStr (ProfileUpdate.name changes) (map_of d ''name'')
     \<and> map_of d' ''phone'' = merged VStr (ProfileUpdate.phone changes) (map_of d ''phone'')
     \<and> map_of d' ''age'' = merged VInt (ProfileUpdate.age changes) (map_of d ''age'')
     \<and> map_of d' ''gender'' = merged VStr (ProfileUpdate.gender changes) (map_of d ''gender'')
     \<and> map_of d' ''height_cm'' = merged VFloat (ProfileUpdate.height_cm changes) (map_of d ''height_cm'')
     \<and> map_of d' ''weight_kg'' = merged VFloat (ProfileUpdate.weight_kg changes) (map_of d ''weight_kg'')
     \<and> map_of d' ''theme'' = merged VStr (ProfileUpdate.theme changes) (map_of d ''theme'')
     \<and> map_of d' ''notifications_enabled'' =
           merged VBool (ProfileUpdate.notifications_enabled changes) (map_of d ''notifications_enabled'')
     \<and> (\<forall>k. k \<notin> update_keys \<longrightarrow> map_of d' k = map_of d k)"
proof -
  note first = update_profile_first [OF assms(1,2,3), of now changes]
  obtain stored where st: "bson_doc (update_data now changes) = Inr stored"
    using assms(4) first by (cases "bson_doc (update_data now changes)") simp_all
  note sf = stored_fields [OF st]
  let ?d' = "apply_set stored d"
  have a: "map_of ?d' k = (case map_of stored k of None \<Rightarrow> map_of d k | Some v \<Rightarrow> Some v)" for k
    using sf(1) by (rule apply_set_distinct)
  have u: "update_profile (Some db) now e changes =
           (Inr [(''ok'', VBool True)],
            Some (db\<lparr>collections := (collections db)(''userprofile'' := pre @ ?d' # post)\<rparr>))"
    using first by (simp add: st)
  have 1: "map_of ?d' ''updated_at'' = Some (VDatetime (millis now))"
    by (simp add: a sf(2))
  have 2: "map_of ?d' ''name'' = merged VStr (ProfileUpdate.name changes) (map_of d ''name'')"
    by (simp add: a sf(3) merged_def split: option.splits)
  have 3: "map_of ?d' ''phone'' = merged VStr (ProfileUpdate.phone changes) (map_of d ''phone'')"
    by (simp add: a sf(4) merged_def split: option.splits)
  have 4: "map_of ?d' ''age'' = merged VInt (ProfileUpdate.age changes) (map_of d ''age'')"
    by (simp add: a sf(5) merged_def split: option.splits)
  have 5: "map_of ?d' ''gender'' = merged VStr (ProfileUpdate.gender changes) (map_of d ''gender'')"
    by (simp add: a sf(6) merged_def split: option.splits)
  have 6: "map_of ?d' ''height_cm'' = merged VFloat (ProfileUpdate.height_cm changes) (map_of d ''height_cm'')"
    by (simp add: a sf(7) merged_def split: option.splits)
  have 7: "map_of ?d' ''weight_kg'' = merged VFloat (ProfileUpdate.weight_kg changes) (map_of d ''weight_kg'')"
    by (simp add: a sf(8) merged_def split: option.splits)
  have 8: "map_of ?d' ''theme'' = merged VStr (ProfileUpdate.theme changes) (map_of d ''theme'')"
    by (simp add: a sf(9) merged_def split: option.splits)
  have 9: "map_of ?d' ''notifications_enabled'' =
           merged VBool (ProfileUpdate.notifications_enabled changes) (map_of d ''notifications_enabled'')"
    by (simp add: a sf(10) merged_def split: option.splits)
  have 10: "\<forall>k. k \<notin> update_keys \<longrightarrow> map_of ?d' k = map_of d k"
    by (simp add: a sf(11))
  from u 1 2 3 4 5 6 7 8 9 10 show ?thesis by blast
qed

text \<open>The update succeeds whenever the age of the body, if any, fits eight bytes.\<close>

lemma update_profile_succeeds:
  assumes "collections db ''userprofile'' = pre @ d # post"
    and "\<forall>x \<in> set pre. map_of x ''email'' \<noteq> Some (VStr e)"
    and "map_of d ''email'' = Some (VStr e)"
    and "case ProfileUpdate.age changes of None \<Rightarrow> True | Some a \<Rightarrow> int64 a"
  shows "fst (update_profile (Some db) now e changes) = Inr [(''ok'', VBool True)]"
proof -
  obtain stored where "bson_doc (update_data now changes) = Inr stored"
    using update_data_encodes [OF assms(4)] by blast
  then show ?thesis
    by (simp add: update_profile_first [OF assms(1,2,3)])
qed

text \<open>
  C7 on a store with one profile, with the body
  \<^verbatim>\<open>{"name": "Alicia", "age": 31, "notifications_enabled": false}\<close> at the clock reading
  1234567 microseconds.
\<close>

theorem update_profile_merge_witness:
  "update_profile (Some db1) 1234567 ''a@b.com'' alicia =
     (Inr [(''ok'', VBool True)],
      Some (db1\<lparr>collections := (collections db1)(''userprofile'' :=
         [[(''_id'', VObjectId 0), (''name'', VStr ''Alicia''), (''email'', VStr ''a@b.com''),
           (''age'', VInt 31), (''theme'', VStr ''dark''), (''notifications_enabled'', VBool False),
           (''updated_at'', VDatetime 1234000)]])\<rparr>))"
proof -
  let ?d = "[(''_id'', VObjectId 0), (''name'', VStr ''Alice''), (''email'', VStr ''a@b.com''),
              (''age'', VInt 30), (''theme'', VStr ''dark'')]"
  have 1: "collections db1 ''userprofile'' = [] @ ?d # []" by (simp add: db1_def)
  have 2: "\<forall>x \<in> set []. map_of x ''email'' \<noteq> Some (VStr ''a@b.com'')" by simp
  have 3: "map_of ?d ''email'' = Some (VStr ''a@b.com'')" by simp
  have c: "update_profile (Some db1) 1234567 ''a@b.com'' alicia =
     (Inr [(''ok'', VBool True)],
      Some (db1\<lparr>collections := (collections db1)(''userprofile'' :=
         [[(''_id'', VObjectId 0), (''name'', VStr ''Alicia''), (''email'', VStr ''a@b.com''),
           (''age'', VInt 31), (''theme'', VStr ''dark''), (''notifications_enabled'', VBool False),
           (''updated_at'', VDatetime 1234000)]])\<rparr>))"
    by (simp add: update_profile_def Let_def db1_def find_one_def matches_def update_data_def
        dump_ProfileUpdate_def alicia_def opt_def apply_set_def update_one_def int64_def millis_def)
  have 4: "fst (update_profile (Some db1) 1234567 ''a@b.com'' alicia) = Inr [(''ok'', VBool True)]"
    by (simp only: c fst_conv)
  from update_profile_merge [OF 1 2 3 4]
  obtain d' where "update_profile (Some db1) 1234567 ''a@b.com'' alicia =
           (Inr [(''ok'', VBool True)],
            Some (db1\<lparr>collections := (collections db1)(''userprofile'' := [] @ d' # [])\<rparr>))"
    by blast
  with c show ?thesis by simp
qed

lemma set_first_keeps_email:
  assumes "distinct (map fst stored)" "map_of stored ''email'' = None"
  shows "map (\<lambda>d. map_of d ''email'') (set_first docs filt stored) = map (\<lambda>d. map_of d ''email'') docs"
  using assms by (induction docs) (simp_all add: apply_set_distinct)

lemma update_one_keeps_email:
  assumes "update_one docs filt (update_data now changes) = Inr docs'"
  shows "map (\<lambda>d. map_of d ''email'') docs' = map (\<lambda>d. map_of d ''email'') docs"
proof -
  obtain stored where st: "bson_doc (update_data now changes) = Inr stored"
    and d: "docs' = set_first docs filt stored"
    using assms by (auto simp: update_one_def split: sum.splits)
  have "''email'' \<notin> update_keys" by (simp add: update_keys_def)
  then have "map_of stored ''email'' = None" by (rule stored_fields(11) [OF st])
  then show ?thesis
    using stored_fields(1) [OF st] d by (simp add: set_first_keeps_email)
qed

text \<open>
  C10: \<^verbatim>\<open>ProfileUpdate\<close> has no email field, and \<^verbatim>\<open>update_profile\<close> never changes the
  email of a stored document: after every request on a connected store, failed or not, each
  document of each collection holds the email it held before.
\<close>

theorem update_profile_keeps_email:
  "\<exists>db'. snd (update_profile (Some db) now e changes) = Some db'
     \<and> (\<forall>c. map (\<lambda>d. map_of d ''email'') (collections db' c)
              = map (\<lambda>d. map_of d ''email'') (collections db c))"
proof (cases "update_one (collections db ''userprofile'') [(''email'', VStr e)] (update_data now changes)")
  case (Inl err)
  then show ?thesis by (simp add: update_profile_def Let_def)
next
  case (Inr docs')
  then show ?thesis
    using update_one_keeps_email [OF Inr] by (simp add: update_profile_def Let_def)
qed

text \<open>C10 on a store with one profile: the email after an update of the age.\<close>

theorem update_profile_keeps_email_witness:
  "map (\<lambda>d. map_of d ''email'') (collections (the (snd (update_profile (Some db1) 99 ''a@b.com'' age31))) ''userprofile'')
     = [Some (VStr ''a@b.com'')]"
proof -
  from update_profile_keeps_email [of db1 99 "''a@b.com''" age31]
  obtain db' where "snd (update_profile (Some db1) 99 ''a@b.com'' age31) = Some db'"
    and "map (\<lambda>d. map_of d ''email'') (collections db' ''userprofile'')
              = map (\<lambda>d. map_of d ''email'') (collections db1 ''userprofile'')"
    by blast
  then show ?thesis by (simp add: db1_def)
qed

section \<open>Properties of the symptom checker\<close>

text \<open>
  The float literals of the handler, as the binary64 numbers they denote: \<^verbatim>\<open>0.15\<close> is
  \<open>5404319552844595 / 2^55\<close>, \<^verbatim>\<open>0.2\<close> is \<open>3602879701896397 / 2^54\<close>, and so on; small
  counts convert exactly.
\<close>

lemma float_literals:
  "float_lit (15 / 100) = 5404319552844595 / 36028797018963968"
  "sev_weight None = 3602879701896397 / 18014398509481984"
  "sev_weight (Some Mild) = 5404319552844595 / 18014398509481984"
  "sev_weight (Some Moderate) = 5404319552844595 / 9007199254740992"
  "sev_weight (Some Severe) = 7656119366529843 / 9007199254740992"
  by code_simp+

lemma float_small_ints:
  "float_of_int 0 = 0" "float_of_int 1 = 1" "float_of_int 2 = 2" "float_of_int 3 = 3"
  by code_simp+

lemma pow2_pos: "0 < pow2 e"
  by (simp add: pow2_def)

lemma round_half_even_nonneg: "0 \<le> x \<Longrightarrow> 0 \<le> round_half_even x"
  by (auto simp: round_half_even_def Let_def)

lemma round_double_nonneg: "0 \<le> x \<Longrightarrow> 0 \<le> round_double x"
proof -
  assume x: "0 \<le> x"
  have "0 \<le> of_int (round_half_even (\<bar>x\<bar> / pow2 (binade \<bar>x\<bar> - 52))) * pow2 (binade \<bar>x\<bar> - 52)"
    using pow2_pos [of "binade \<bar>x\<bar> - 52"] round_half_even_nonneg [of "\<bar>x\<bar> / pow2 (binade \<bar>x\<bar> - 52)"]
    by simp
  then show ?thesis
    using x by (simp add: round_double_def Let_def sgn_if mult.assoc)
qed

lemma sev_weight_nonneg: "0 \<le> sev_weight s"
  by (cases s rule: sev_weight.cases) (simp_all add: float_lit_def round_double_nonneg)

lemma sev_weight_cases:
  "sev_weight s = (case s of None \<Rightarrow> float_lit (20 / 100) | Some Mild \<Rightarrow> float_lit (30 / 100)
      | Some Moderate \<Rightarrow> float_lit (60 / 100) | Some Severe \<Rightarrow> float_lit (85 / 100))"
  by (cases s rule: sev_weight.cases) simp_all

lemma risk_bounds: "0 \<le> risk entry \<and> risk entry \<le> 1"
proof -
  have "0 \<le> fmul (float_lit (15 / 100)) (float_of_int (int n))" for n
    by (simp add: fmul_def float_lit_def float_of_int_def round_double_nonneg)
  then have "0 \<le> fadd (fmul (float_lit (15 / 100)) (float_of_int (int n))) (sev_weight s)" for n s
    by (simp add: fadd_def round_double_nonneg sev_weight_nonneg)
  then show ?thesis
    by (simp add: risk_def Let_def)
qed

lemma enriched_ignores:
  "enriched (entry\<lparr>risk_score := rs, assessment := a\<rparr>) = enriched entry"
  "risk (entry\<lparr>risk_score := rs, assessment := a\<rparr>) = risk entry"
  by (simp_all add: enriched_def risk_def)

lemma stored_check_fields:
  "map_of (stored_doc n (dump_SymptomCheck (enriched entry))) ''risk_score'' = Some (VFloat (risk entry))"
  "map_of (stored_doc n (dump_SymptomCheck (enriched entry))) ''assessment'' = Some (VStr assessment_text)"
  by (simp_all add: stored_doc_def set_fields_def dump_SymptomCheck_def enriched_def opt_def)

text \<open>
  Rounding to binary64 moves a non-negative number by at most \<^verbatim>\<open>2^-53\<close> of itself. The
  handler rounds four times on the way to the score (the literal, the count, the product and
  the sum), so the score is within \<^verbatim>\<open>2^-50\<close> of the unrounded formula.
\<close>

lemma pow2_powi: "pow2 e = 2 powi e"
  by (simp add: pow2_def power_int_def power_one_over [symmetric] inverse_eq_divide)

lemma pow2_diff: "pow2 (e - k) = pow2 e / pow2 k"
  by (simp add: pow2_powi power_int_diff)

lemma pow2_nat: "pow2 (int n) = 2 ^ n"
  by (simp add: pow2_def)

lemma binade_lower:
  assumes "0 < x"
  shows "pow2 (binade x) \<le> x"
proof -
  obtain a b where q: "quotient_of x = (a, b)" by (cases "quotient_of x")
  have b: "0 < b" using q by (rule quotient_of_denom_pos)
  have x: "x = of_int a / of_int b" using q by (rule quotient_of_div)
  have a: "0 < a"
    using assms b x by (simp add: zero_less_divide_iff)
  let ?e = "bitlen a - bitlen b"
  show ?thesis
  proof (cases "pow2 ?e \<le> x")
    case True
    then show ?thesis by (simp add: binade_def q Let_def)
  next
    case False
    have la: "(2::int) ^ nat (bitlen a - 1) \<le> a" using bitlen_bounds [OF a] by simp
    have lb: "b < (2::int) ^ nat (bitlen b)" using bitlen_bounds [OF b] by simp
    have a1: "1 \<le> bitlen a" using a by (simp add: bitlen_alt_def)
    have b0: "0 \<le> bitlen b" by (rule bitlen_nonneg)
    have ra: "pow2 (bitlen a - 1) \<le> of_int a"
    proof -
      have "pow2 (bitlen a - 1) = of_int (2 ^ nat (bitlen a - 1))"
        using a1 by (simp add: pow2_def)
      also have "\<dots> \<le> of_int a" using la by (simp only: of_int_le_iff)
      finally show ?thesis .
    qed
    have rb: "of_int b \<le> pow2 (bitlen b)"
    proof -
      have "of_int b \<le> (of_int (2 ^ nat (bitlen b)) :: rat)"
        using lb by (simp only: of_int_le_iff less_imp_le)
      also have "\<dots> = pow2 (bitlen b)" using b0 by (simp add: pow2_def)
      finally show ?thesis .
    qed
    have "pow2 (?e - 1) = pow2 (bitlen a - 1) / pow2 (bitlen b)"
      using pow2_diff [of "bitlen a - 1" "bitlen b"] by (simp add: algebra_simps)
    also have "\<dots> \<le> of_int a / of_int b"
      using ra rb b a pow2_pos [of "bitlen b"] pow2_pos [of "bitlen a - 1"]
      by (intro frac_le) simp_all
    finally have "pow2 (?e - 1) \<le> x" using x by simp
    then show ?thesis using False by (simp add: binade_def q Let_def)
  qed
qed

lemma round_half_even_error: "\<bar>of_int (round_half_even y) - y\<bar> \<le> 1 / 2"
proof -
  have f: "of_int \<lfloor>y\<rfloor> \<le> y" "y < of_int \<lfloor>y\<rfloor> + 1" by linarith+
  show ?thesis
    using f by (auto simp: round_half_even_def Let_def)
qed

lemma round_double_error:
  assumes "0 \<le> x"
  shows "\<bar>round_double x - x\<bar> \<le> x / 2 ^ 53"
proof (cases "x = 0")
  case True
  then show ?thesis by (simp add: round_double_def)
next
  case False
  then have x: "0 < x" using assms by simp
  define ulp where "ulp = pow2 (binade x - 52)"
  have up: "0 < ulp" by (simp add: ulp_def pow2_pos)
  have ul: "ulp \<le> x / 2 ^ 52"
  proof -
    have "ulp = pow2 (binade x) / 2 ^ 52"
      using pow2_diff [of "binade x" 52] pow2_nat [of 52] by (simp add: ulp_def)
    also have "\<dots> \<le> x / 2 ^ 52"
      using binade_lower [OF x] by (simp add: divide_right_mono)
    finally show ?thesis .
  qed
  have rd: "round_double x = of_int (round_half_even (x / ulp)) * ulp"
    using x by (simp add: round_double_def Let_def ulp_def)
  have "\<bar>round_double x - x\<bar> = \<bar>of_int (round_half_even (x / ulp)) - x / ulp\<bar> * ulp"
  proof -
    have "round_double x - x = (of_int (round_half_even (x / ulp)) - x / ulp) * ulp"
      using up by (simp add: rd algebra_simps)
    then show ?thesis using up by (simp add: abs_mult)
  qed
  also have "\<dots> \<le> (1 / 2) * ulp"
    using round_half_even_error [of "x / ulp"] up by (intro mult_right_mono) simp_all
  also have "\<dots> \<le> (1 / 2) * (x / 2 ^ 52)"
    using ul by simp
  also have "\<dots> = x / 2 ^ 53" by simp
  finally show ?thesis .
qed

lemma round_double_bounds:
  assumes "0 \<le> x"
  shows "x - x / 9007199254740992 \<le> round_double x"
    and "round_double x \<le> x + x / 9007199254740992"
proof -
  have "\<bar>round_double x - x\<bar> \<le> x / 9007199254740992"
    using round_double_error [OF assms] by simp
  then show "x - x / 9007199254740992 \<le> round_double x"
    and "round_double x \<le> x + x / 9007199254740992"
    by linarith+
qed

lemma risk_close_aux:
  fixes N N' P S W w0 :: rat
  assumes "0 \<le> N" "N - N / 9007199254740992 \<le> N'" "N' \<le> N + N / 9007199254740992"
    and "5404319552844595 / 36028797018963968 * N'
           - 5404319552844595 / 36028797018963968 * N' / 9007199254740992 \<le> P"
    and "P \<le> 5404319552844595 / 36028797018963968 * N'
           + 5404319552844595 / 36028797018963968 * N' / 9007199254740992"
    and "(P + W) - (P + W) / 9007199254740992 \<le> S"
    and "S \<le> (P + W) + (P + W) / 9007199254740992"
    and "w0 - w0 / 9007199254740992 \<le> W" "W \<le> w0 + w0 / 9007199254740992"
    and "0 \<le> w0" "w0 \<le> 1"
  shows "\<bar>min 1 S - min 1 (15 / 100 * N + w0)\<bar> \<le> 1 / 1125899906842624"
proof -
  let ?E = "15 / 100 * N + w0"
  have Pu: "P \<le> 15 / 100 * N + 15 / 100 * N / 2251799813685248"
    using assms(1,3,5) by linarith
  have Pl: "15 / 100 * N - 15 / 100 * N / 2251799813685248 \<le> P"
    using assms(1,2,4) by linarith
  have PWu: "P + W \<le> 15 / 100 * N + w0 + 15 / 100 * N / 2251799813685248
                 + w0 / 2251799813685248"
    using Pu assms(9,10) by linarith
  have PWl: "15 / 100 * N + w0 - 15 / 100 * N / 2251799813685248
                 - w0 / 2251799813685248 \<le> P + W"
    using Pl assms(8,10) by linarith
  have P0: "0 \<le> P" using Pl assms(1) by linarith
  have W0: "0 \<le> W" using assms(8,10) by linarith
  have S1: "S \<le> P + W + P / 9007199254740992 + W / 9007199254740992"
    using assms(7) by (simp only: add_divide_distrib add.assoc)
  have S2: "P + W - P / 9007199254740992 - W / 9007199254740992 \<le> S"
    using assms(6) unfolding add_divide_distrib by linarith
  have Su: "S \<le> 15 / 100 * N + w0 + 15 / 100 * N / 1125899906842624
                 + w0 / 1125899906842624"
    using Pu assms(9) S1 assms(1,10) by linarith
  have Sl: "15 / 100 * N + w0 - 15 / 100 * N / 1125899906842624
                 - w0 / 1125899906842624 \<le> S"
    using Pu assms(9) Pl assms(8) S2 assms(1,10) by linarith
  have up: "S \<le> ?E + 1 / 1125899906842624" if "?E \<le> 1"
    using Su that by linarith
  have lo: "?E - 1 / 1125899906842624 \<le> S" if "?E \<le> 1"
    using Sl that assms(1,10) by linarith
  have big: "1 - 1 / 1125899906842624 \<le> S" if "1 \<le> ?E"
    using Sl that by linarith
  show ?thesis
  proof (cases "?E \<le> 1")
    case True
    note E = True
    show ?thesis
    proof (cases "S \<le> 1")
      case True
      then have "min 1 S = S" "min 1 ?E = ?E" using E by (simp_all only: min_absorb2)
      then show ?thesis using up [OF E] lo [OF E] by linarith
    next
      case False
      then have "min 1 S = 1" "min 1 ?E = ?E" using E by (simp_all add: min_def)
      then show ?thesis using up [OF E] False E by linarith
    qed
  next
    case False
    then have E: "1 \<le> ?E" by linarith
    then have mE: "min 1 ?E = 1" by (simp only: min_absorb1)
    show ?thesis
    proof (cases "S \<le> 1")
      case True
      then have "min 1 S = S" by (simp only: min_absorb2)
      then show ?thesis using mE big [OF E] True by linarith
    next
      case False
      then have "min 1 S = 1" by (simp add: min_def)
      then show ?thesis using mE by simp
    qed
  qed
qed

lemma sev_weight_exact: "sev_weight s = round_double (weight_spec s)"
  by (cases s rule: sev_weight.cases) (simp_all add: float_lit_def)

lemma weight_spec_bounds: "0 \<le> weight_spec s \<and> weight_spec s \<le> 1"
  by (cases s rule: sev_weight.cases) simp_all

lemma risk_close:
  "\<bar>risk entry - risk_spec (length (symptoms entry)) (severity entry)\<bar> \<le> 1 / 1125899906842624"
proof -
  define N :: rat where "N = of_nat (length (symptoms entry))"
  define N' where "N' = round_double N"
  define P where "P = round_double (5404319552844595 / 36028797018963968 * N')"
  define W where "W = round_double (weight_spec (severity entry))"
  define S where "S = round_double (P + W)"
  have N0: "0 \<le> N" by (simp add: N_def)
  have N'0: "0 \<le> N'" unfolding N'_def using N0 by (rule round_double_nonneg)
  have cN: "0 \<le> 5404319552844595 / 36028797018963968 * N'" using N'0 by simp
  have P0: "0 \<le> P" unfolding P_def using cN by (rule round_double_nonneg)
  have w0: "0 \<le> weight_spec (severity entry)" "weight_spec (severity entry) \<le> 1"
    using weight_spec_bounds [of "severity entry"] by simp_all
  have W0: "0 \<le> W" unfolding W_def using w0(1) by (rule round_double_nonneg)
  have PW: "0 \<le> P + W" using P0 W0 by simp
  have r: "risk entry = min 1 S"
    by (simp only: risk_def Let_def fadd_def fmul_def float_of_int_def float_literals(1)
        sev_weight_exact S_def P_def W_def N'_def N_def of_int_of_nat_eq)
  have e: "risk_spec (length (symptoms entry)) (severity entry)
             = min 1 (15 / 100 * N + weight_spec (severity entry))"
    by (simp add: risk_spec_def N_def)
  show ?thesis
    unfolding r e
    by (rule risk_close_aux [OF N0
          round_double_bounds [OF N0, folded N'_def]
          round_double_bounds [OF cN, folded P_def]
          round_double_bounds [OF PW, folded S_def]
          round_double_bounds [OF w0(1), folded W_def] w0])
qed

text \<open>
  Two symptoms of moderate severity, the example of the specification: the float sum of
  \<^verbatim>\<open>0.15 * 2\<close> and \<^verbatim>\<open>0.6\<close> is \<^verbatim>\<open>0.8999999999999999\<close>, the float next below \<^verbatim>\<open>0.9\<close>.
\<close>

lemma risk_cough_fever: "risk cough_fever = 2026619832316723 / 2251799813685248"
  by code_simp

lemma risk_three_plain: "risk three_plain = 1463669878895411 / 2251799813685248"
  by code_simp

lemma submit_cough_fever:
  "submit_symptoms lib0 (Some db0) cough_fever =
     (Inr [(''id'', VStr (py_str lib0 (VObjectId 0))),
           (''risk_score'', VFloat (2026619832316723 / 2251799813685248)),
           (''assessment'', VStr assessment_text)],
      Some (db0\<lparr>collections := (collections db0)(''symptomcheck'' :=
                   [stored_doc 0 (dump_SymptomCheck (enriched cough_fever))]),
                next_oid := Suc 0\<rparr>))"
  by (simp add: submit_symptoms_def create_document_def Let_def risk_cough_fever db0_def)

text \<open>
  C1, as stated, fails: for \<^verbatim>\<open>{"symptoms": ["cough", "fever"], "severity": "moderate"}\<close> the
  specification's formula gives \<^verbatim>\<open>min(1, 0.15 * 2 + 0.60)\<close>, which is exactly nine tenths,
  while \<^verbatim>\<open>submit_symptoms\<close> returns and stores \<open>2026619832316723 / 2^51\<close>, the float
  \<^verbatim>\<open>0.8999999999999999\<close>. The two numbers differ, so the score does not equal the formula
  exactly.
\<close>

theorem submit_symptoms_inexact:
  "fst (submit_symptoms lib0 (Some db0) cough_fever) =
     Inr [(''id'', VStr (py_str lib0 (VObjectId 0))),
          (''risk_score'', VFloat (2026619832316723 / 2251799813685248)),
          (''assessment'', VStr assessment_text)]
   \<and> map_of (last (collections (the (snd (submit_symptoms lib0 (Some db0) cough_fever))) ''symptomcheck''))
        ''risk_score'' = Some (VFloat (2026619832316723 / 2251799813685248))
   \<and> risk_spec (length (symptoms cough_fever)) (severity cough_fever) = 9 / 10
   \<and> 2026619832316723 / 2251799813685248 \<noteq> risk_spec (length (symptoms cough_fever)) (severity cough_fever)"
proof -
  have e: "risk_spec (length (symptoms cough_fever)) (severity cough_fever) = 9 / 10"
    by (simp add: risk_spec_def cough_fever_def)
  have d: "(2026619832316723 / 2251799813685248 :: rat) \<noteq> 9 / 10"
    by simp
  show ?thesis
    unfolding e using d stored_check_fields(1) [of 0 cough_fever]
    by (simp add: submit_cough_fever risk_cough_fever)
qed

text \<open>
  C1, amended: on a connected store, \<^verbatim>\<open>submit_symptoms\<close> returns and stores the risk score
  \<^verbatim>\<open>min(1.0, 0.15 * count + weight)\<close> as binary64 arithmetic computes it: the literals
  \<^verbatim>\<open>0.15\<close>, \<^verbatim>\<open>0.20\<close> (no severity), \<^verbatim>\<open>0.30\<close> (mild), \<^verbatim>\<open>0.60\<close> (moderate) and \<^verbatim>\<open>0.85\<close>
  (severe) denote the nearest floats, the count is converted to a float, and the product
  and the sum are each rounded to nearest, ties to even. The score lies between 0 and 1
  and is within \<^verbatim>\<open>2^-50\<close> of the exact value of the specification's formula; the stored
  and the returned assessment are the fixed text; and a risk score or an assessment in the
  request changes nothing.
\<close>

theorem submit_symptoms_risk:
  "let r = min 1 (fadd (fmul (float_lit (15 / 100)) (float_of_int (int (length (symptoms entry)))))
                     (case severity entry of
                        None \<Rightarrow> float_lit (20 / 100)
                      | Some Mild \<Rightarrow> float_lit (30 / 100)
                      | Some Moderate \<Rightarrow> float_lit (60 / 100)
                      | Some Severe \<Rightarrow> float_lit (85 / 100)));
       d = stored_doc (next_oid db) (dump_SymptomCheck (enriched entry))
   in submit_symptoms L (Some db) entry =
        (Inr [(''id'', VStr (py_str L (VObjectId (next_oid db)))),
              (''risk_score'', VFloat r),
              (''assessment'', VStr assessment_text)],
         Some (db\<lparr>collections := (collections db)(''symptomcheck'' := collections db ''symptomcheck'' @ [d]),
                  next_oid := Suc (next_oid db)\<rparr>))
      \<and> map_of d ''risk_score'' = Some (VFloat r)
      \<and> map_of d ''assessment'' = Some (VStr assessment_text)
      \<and> 0 \<le> r \<and> r \<le> 1
      \<and> \<bar>r - risk_spec (length (symptoms entry)) (severity entry)\<bar> \<le> 1 / 2 ^ 50
      \<and> submit_symptoms L s (entry\<lparr>risk_score := rs, assessment := a\<rparr>) = submit_symptoms L s entry"
proof -
  have r: "min 1 (fadd (fmul (float_lit (15 / 100)) (float_of_int (int (length (symptoms entry)))))
                     (case severity entry of
                        None \<Rightarrow> float_lit (20 / 100)
                      | Some Mild \<Rightarrow> float_lit (30 / 100)
                      | Some Moderate \<Rightarrow> float_lit (60 / 100)
                      | Some Severe \<Rightarrow> float_lit (85 / 100))) = risk entry"
    by (simp only: risk_def Let_def sev_weight_cases)
  have s: "submit_symptoms L (Some db) entry =
        (Inr [(''id'', VStr (py_str L (VObjectId (next_oid db)))),
              (''risk_score'', VFloat (risk entry)),
              (''assessment'', VStr assessment_text)],
         Some (db\<lparr>collections := (collections db)(''symptomcheck'' := collections db ''symptomcheck'' @
                    [stored_doc (next_oid db) (dump_SymptomCheck (enriched entry))]),
                  next_oid := Suc (next_oid db)\<rparr>))"
    by (simp add: submit_symptoms_def create_document_def Let_def)
  have i: "submit_symptoms L s (entry\<lparr>risk_score := rs, assessment := a\<rparr>) = submit_symptoms L s entry"
    by (simp only: submit_symptoms_def enriched_ignores)
  have c: "\<bar>risk entry - risk_spec (length (symptoms entry)) (severity entry)\<bar> \<le> 1 / 2 ^ 50"
    using risk_close [of entry] by simp
  show ?thesis
    unfolding Let_def r
    using s i c risk_bounds [of entry] stored_check_fields [of "next_oid db" entry]
    by (intro conjI) simp_all
qed

text \<open>
  C1, amended, on the empty store, for a request with three symptoms and no severity that
  carries a risk score and an assessment of its own: the response and the stored document
  hold the computed ones; the score is the float \<^verbatim>\<open>0.6499999999999999\<close>,
  \<open>1463669878895411 / 2^51\<close>, which is within \<^verbatim>\<open>2^-50\<close> of the exact thirteen twentieths.
\<close>

theorem submit_symptoms_risk_witness:
  "fst (submit_symptoms lib0 (Some db0) three_plain) =
     Inr [(''id'', VStr (py_str lib0 (VObjectId 0))),
          (''risk_score'', VFloat (1463669878895411 / 2251799813685248)),
          (''assessment'', VStr assessment_text)]
   \<and> map_of (last (collections (the (snd (submit_symptoms lib0 (Some db0) three_plain))) ''symptomcheck''))
        ''risk_score'' = Some (VFloat (1463669878895411 / 2251799813685248))
   \<and> map_of (last (collections (the (snd (submit_symptoms lib0 (Some db0) three_plain))) ''symptomcheck''))
        ''assessment'' = Some (VStr assessment_text)
   \<and> risk_spec (length (symptoms three_plain)) (severity three_plain) = 13 / 20
   \<and> \<bar>1463669878895411 / 2251799813685248 - risk_spec (length (symptoms three_plain)) (severity three_plain)\<bar>
        \<le> 1 / 2 ^ 50"
proof -
  have r: "min 1 (fadd (fmul (float_lit (15 / 100)) (float_of_int (int (length (symptoms three_plain)))))
                     (case severity three_plain of
                        None \<Rightarrow> float_lit (20 / 100)
                      | Some Mild \<Rightarrow> float_lit (30 / 100)
                      | Some Moderate \<Rightarrow> float_lit (60 / 100)
                      | Some Severe \<Rightarrow> float_lit (85 / 100))) = 1463669878895411 / 2251799813685248"
    using risk_three_plain by (simp only: risk_def Let_def sev_weight_cases)
  have e: "risk_spec (length (symptoms three_plain)) (severity three_plain) = 13 / 20"
    by (simp add: risk_spec_def three_plain_def)
  note t = submit_symptoms_risk [of three_plain db0 lib0 None None None, unfolded Let_def r]
  show ?thesis
    using t e by (simp add: db0_def)
qed

section \<open>Properties of the list endpoints\<close>












section \<open>Properties of the chat history\<close>

lemma py_lt_trans:
  "py_lt b a = Inr False \<Longrightarrow> py_lt c b = Inr False \<Longrightarrow> py_lt c a = Inr False"
  by (cases a; cases b; cases c) (auto split: if_splits)

lemma py_lt_asym: "py_lt y x = Inr True \<Longrightarrow> py_lt x y = Inr False"
  by (cases x; cases y) (auto split: if_splits)

lemma key_le_trans: "key_le p q \<Longrightarrow> key_le q r \<Longrightarrow> key_le p r"
  unfolding key_le_def by (rule py_lt_trans)

lemma insort_lt_Cons:
  "insort_lt x (y # ys) = Inr zs \<Longrightarrow>
     (py_lt (fst y) (fst x) = Inr False \<and> zs = x # y # ys)
     \<or> (py_lt (fst y) (fst x) = Inr True \<and> (\<exists>ws. insort_lt x ys = Inr ws \<and> zs = y # ws))"
  by (cases "py_lt (fst y) (fst x)"; cases "insort_lt x ys")
     (auto simp del: py_lt.simps split: bool.splits)

lemma insort_lt_set: "insort_lt x ys = Inr zs \<Longrightarrow> set zs = insert x (set ys)"
proof (induction ys arbitrary: zs)
  case Nil
  then show ?case by auto
next
  case (Cons y ys)
  from insort_lt_Cons [OF Cons.prems] show ?case
  proof
    assume "py_lt (fst y) (fst x) = Inr False \<and> zs = x # y # ys"
    then show ?thesis by auto
  next
    assume "py_lt (fst y) (fst x) = Inr True \<and> (\<exists>ws. insort_lt x ys = Inr ws \<and> zs = y # ws)"
    then obtain ws where ws: "insort_lt x ys = Inr ws" "zs = y # ws" by blast
    then show ?thesis using Cons.IH [OF ws(1)] by auto
  qed
qed

lemma insort_lt_sorted:
  "sorted_wrt key_le ys \<Longrightarrow> insort_lt x ys = Inr zs \<Longrightarrow> sorted_wrt key_le zs"
proof (induction ys arbitrary: zs)
  case Nil
  then show ?case by auto
next
  case (Cons y ys)
  from insort_lt_Cons [OF Cons.prems(2)] show ?case
  proof
    assume a: "py_lt (fst y) (fst x) = Inr False \<and> zs = x # y # ys"
    then have xy: "key_le x y" by (simp add: key_le_def)
    have "key_le x z" if "z \<in> set ys" for z
    proof -
      have "key_le y z" using Cons.prems(1) that by simp
      with xy show ?thesis by (rule key_le_trans)
    qed
    then show ?thesis using xy a Cons.prems(1) by simp
  next
    assume "py_lt (fst y) (fst x) = Inr True \<and> (\<exists>ws. insort_lt x ys = Inr ws \<and> zs = y # ws)"
    then obtain ws where lt: "py_lt (fst y) (fst x) = Inr True"
      and ws: "insort_lt x ys = Inr ws" and zs: "zs = y # ws" by blast
    have yx: "key_le y x"
      unfolding key_le_def using lt by (rule py_lt_asym)
    have s: "sorted_wrt key_le ws"
      using Cons.IH [OF _ ws] Cons.prems(1) by simp
    have "key_le y w" if "w \<in> set ws" for w
      using that insort_lt_set [OF ws] yx Cons.prems(1) by auto
    then show ?thesis using s zs by simp
  qed
qed

lemma sort_by_key_Cons:
  assumes "sort_by_key (x # xs) = Inr ys"
  shows "\<exists>ws. sort_by_key xs = Inr ws \<and> insort_lt x ws = Inr ys"
proof (cases "sort_by_key xs")
  case (Inl e)
  then show ?thesis using assms by simp
next
  case (Inr ws)
  then show ?thesis using assms by simp
qed

lemma sort_by_key_sorted: "sort_by_key xs = Inr ys \<Longrightarrow> sorted_wrt key_le ys"
proof (induction xs arbitrary: ys)
  case Nil
  then show ?case by simp
next
  case (Cons x xs)
  from sort_by_key_Cons [OF Cons.prems] obtain ws
    where ws: "sort_by_key xs = Inr ws" and ys: "insort_lt x ws = Inr ys" by blast
  have "sorted_wrt key_le ws" using ws by (rule Cons.IH)
  then show ?case using ys by (rule insort_lt_sorted)
qed

lemma sort_by_key_set: "sort_by_key xs = Inr ys \<Longrightarrow> set ys = set xs"
proof (induction xs arbitrary: ys)
  case Nil
  then show ?case by simp
next
  case (Cons x xs)
  from sort_by_key_Cons [OF Cons.prems] obtain ws
    where ws: "sort_by_key xs = Inr ws" and ys: "insort_lt x ws = Inr ys" by blast
  have "set ws = set xs" using ws by (rule Cons.IH)
  then show ?case using insort_lt_set [OF ys] by simp
qed

lemma keyed_key:
  "(k, d) \<in> set (keyed clock docs) \<Longrightarrow> map_of d ''created_at'' = Some v \<Longrightarrow> k = v"
  by (auto simp: keyed_def created_key_def)

lemma created_times_Cons:
  "created_times (d # ds) =
     (case map_of d ''created_at'' of Some (VDatetime t) \<Rightarrow> [t] | _ \<Rightarrow> []) @ created_times ds"
  by (simp add: created_times_def)

lemma created_times_set:
  "t \<in> set (created_times ds) \<Longrightarrow> \<exists>d \<in> set ds. map_of d ''created_at'' = Some (VDatetime t)"
  by (induction ds) (auto simp: created_times_Cons created_times_def split: option.splits val.splits)

lemma sorted_created_times:
  assumes "sorted_wrt key_le ps"
    and "\<And>k d v. (k, d) \<in> set ps \<Longrightarrow> map_of d ''created_at'' = Some v \<Longrightarrow> k = v"
  shows "sorted (created_times (map snd ps))"
  using assms
proof (induction ps)
  case Nil
  then show ?case by (simp add: created_times_def)
next
  case (Cons p ps)
  obtain k d where p: "p = (k, d)" by (cases p)
  have IH: "sorted (created_times (map snd ps))"
    using Cons by auto
  show ?case
  proof (cases "map_of d ''created_at''")
    case None
    then show ?thesis using IH p by (simp add: created_times_Cons)
  next
    case (Some v)
    then have kv: "k = v" using Cons.prems(2) [of k d v] p by simp
    show ?thesis
    proof (cases v)
      case (VDatetime t)
      have "t \<le> x" if xin: "x \<in> set (created_times (map snd ps))" for x
      proof -
        obtain d' where "d' \<in> set (map snd ps)" and c: "map_of d' ''created_at'' = Some (VDatetime x)"
          using created_times_set [OF xin] by blast
        then obtain k' where q: "(k', d') \<in> set ps" by auto
        then have "k' = VDatetime x" using Cons.prems(2) [of k' d'] c by simp
        moreover have "key_le p (k', d')" using Cons.prems(1) q by auto
        ultimately show ?thesis using p kv VDatetime by (simp add: key_le_def)
      qed
      then show ?thesis using IH p Some VDatetime by (simp add: created_times_Cons)
    qed (use IH p Some in \<open>simp_all add: created_times_Cons\<close>)
  qed
qed

lemma insort_lt_total:
  assumes "\<exists>t. fst x = VDatetime t" "\<forall>y \<in> set ys. \<exists>t. fst y = VDatetime t"
  shows "\<exists>zs. insort_lt x ys = Inr zs"
  using assms(2)
proof (induction ys)
  case Nil
  then show ?case by simp
next
  case (Cons y ys)
  obtain a b where ab: "fst x = VDatetime a" "fst y = VDatetime b"
    using assms(1) Cons.prems by auto
  obtain zs where zs: "insort_lt x ys = Inr zs"
    using Cons by auto
  show ?case
    by (cases "b < a") (simp_all add: ab zs)
qed

lemma sort_by_key_total:
  "\<forall>x \<in> set xs. \<exists>t. fst x = VDatetime t \<Longrightarrow> \<exists>ys. sort_by_key xs = Inr ys"
proof (induction xs)
  case Nil
  then show ?case by simp
next
  case (Cons x xs)
  obtain ws where ws: "sort_by_key xs = Inr ws"
    using Cons by auto
  have "\<forall>y \<in> set ws. \<exists>t. fst y = VDatetime t"
    using sort_by_key_set [OF ws] Cons.prems by simp
  then obtain ys where "insort_lt x ws = Inr ys"
    using insort_lt_total [of x ws] Cons.prems by auto
  then show ?case by (simp add: ws)
qed

lemma timed_key: "timed d \<Longrightarrow> \<exists>t. created_key now d = VDatetime t"
proof (cases "map_of d ''created_at''")
  case None
  then show ?thesis by (simp add: created_key_def)
next
  case (Some v)
  assume "timed d"
  then show ?thesis using Some by (cases v) (simp_all add: created_key_def timed_def)
qed

lemma keyed_time_keys:
  assumes "\<forall>d \<in> set docs. timed d"
  shows "\<forall>x \<in> set (keyed clock docs). \<exists>t. fst x = VDatetime t"
proof
  fix x assume "x \<in> set (keyed clock docs)"
  then obtain i where i: "i < length docs" and x: "x = (created_key (clock i) (docs ! i), docs ! i)"
    by (auto simp: keyed_def)
  have "timed (docs ! i)" using assms i by simp
  then show "\<exists>t. fst x = VDatetime t" using x timed_key by simp
qed

lemma get_documents_subset:
  "get_documents (Some db) c filt n = Inr docs \<Longrightarrow> set docs \<subseteq> set (collections db c)"
  by (auto simp: get_documents_def dest: in_set_takeD)

lemma chat_history_total:
  assumes "\<forall>d \<in> set (collections db ''chatmessage''). timed d"
    and "given = None \<or> (\<exists>l. given = Some l \<and> 1 \<le> l \<and> l \<le> 200)"
  shows "\<exists>out. chat_history L (Some db) clock conv owner given = Inr out"
proof -
  obtain l where l: "query_limit 50 1 200 given = Inr l"
    using assms(2) by (auto simp: query_limit_def)
  obtain fetched where d: "get_documents (Some db) ''chatmessage'' (history_filter conv owner) (nat l) = Inr fetched"
    by (simp add: get_documents_def)
  have "\<forall>d \<in> set fetched. timed d"
    using get_documents_subset [OF d] assms(1) by blast
  then obtain ps where "sort_by_key (keyed clock fetched) = Inr ps"
    using sort_by_key_total keyed_time_keys by blast
  then show ?thesis
    by (simp add: chat_history_def sorted_history_def l d)
qed

text \<open>
  C8: the sequence \<^verbatim>\<open>chat_history\<close> returns is the serialization, document by document,
  of a sequence whose creation times (the \<^verbatim>\<open>created_at\<close> fields, of the documents that
  have one) are in non-decreasing order. And the query does return a sequence, on a connected
  store whose chat messages hold a datetime, if anything, as \<^verbatim>\<open>created_at\<close>, for every
  limit within the range.
\<close>

theorem chat_history_sorted:
  "(chat_history L s clock conv owner given = Inr out \<longrightarrow>
     (\<exists>docs. sorted_history s clock conv owner given = Inr docs
           \<and> out = map (\<lambda>d. serialize L (Some d)) docs
           \<and> sorted (created_times docs)))
   \<and> ((\<forall>d \<in> set (collections db ''chatmessage''). timed d)
        \<and> (given = None \<or> (\<exists>l. given = Some l \<and> 1 \<le> l \<and> l \<le> 200)) \<longrightarrow>
      (\<exists>res. chat_history L (Some db) clock conv owner given = Inr res))"
proof (intro conjI impI)
  assume r: "chat_history L s clock conv owner given = Inr out"
  obtain l fetched ps where l: "query_limit 50 1 200 given = Inr l"
    and d: "get_documents s ''chatmessage'' (history_filter conv owner) (nat l) = Inr fetched"
    and p: "sort_by_key (keyed clock fetched) = Inr ps"
    and h: "sorted_history s clock conv owner given = Inr (map snd ps)"
    and o: "out = map (\<lambda>d. serialize L (Some d)) (map snd ps)"
    using r by (auto simp: chat_history_def sorted_history_def split: sum.splits)
  have "sorted (created_times (map snd ps))"
  proof (rule sorted_created_times)
    show "sorted_wrt key_le ps" using p by (rule sort_by_key_sorted)
    show "k = v" if "(k, d) \<in> set ps" "map_of d ''created_at'' = Some v" for k d v
      using that sort_by_key_set [OF p] keyed_key by blast
  qed
  then show "\<exists>docs. sorted_history s clock conv owner given = Inr docs
           \<and> out = map (\<lambda>d. serialize L (Some d)) docs
           \<and> sorted (created_times docs)"
    using h o by blast
next
  assume "(\<forall>d \<in> set (collections db ''chatmessage''). timed d)
        \<and> (given = None \<or> (\<exists>l. given = Some l \<and> 1 \<le> l \<and> l \<le> 200))"
  then show "\<exists>res. chat_history L (Some db) clock conv owner given = Inr res"
    using chat_history_total by blast
qed

text \<open>
  Three messages of one conversation, stored in the order of the creation times 30, 10, 20.
\<close>

lemma history_db3:
  "sorted_history (Some db3) (\<lambda>i. 0) (Some ''c1'') None None = Inr [msg_at 1 10, msg_at 2 20, msg_at 0 30]"
  by (simp add: sorted_history_def query_limit_def get_documents_def db3_def history_filter_def
      owner_filter_def truthy_def matches_def msg_at_def keyed_def created_key_def upt_rec)

text \<open>C8 on these messages: the history returns them in the order 10, 20, 30.\<close>

theorem chat_history_sorted_witness:
  "chat_history lib0 (Some db3) (\<lambda>i. 0) (Some ''c1'') None None
     = Inr (map (\<lambda>d. serialize lib0 (Some d)) [msg_at 1 10, msg_at 2 20, msg_at 0 30])
   \<and> created_times [msg_at 1 10, msg_at 2 20, msg_at 0 30] = [10, 20, 30]
   \<and> sorted (created_times [msg_at 1 10, msg_at 2 20, msg_at 0 30])"
proof -
  have c: "chat_history lib0 (Some db3) (\<lambda>i. 0) (Some ''c1'') None None
     = Inr (map (\<lambda>d. serialize lib0 (Some d)) [msg_at 1 10, msg_at 2 20, msg_at 0 30])"
    by (simp only: chat_history_def history_db3 sum.case)
  from chat_history_sorted [of lib0 "Some db3" "\<lambda>i. 0" "Some ''c1''" None None
      "map (\<lambda>d. serialize lib0 (Some d)) [msg_at 1 10, msg_at 2 20, msg_at 0 30]" db3] c
  obtain docs where "sorted_history (Some db3) (\<lambda>i. 0) (Some ''c1'') None None = Inr docs"
    and "sorted (created_times docs)"
    by blast
  then have s: "sorted (created_times [msg_at 1 10, msg_at 2 20, msg_at 0 30])"
    by (simp add: history_db3)
  have t: "created_times [msg_at 1 10, msg_at 2 20, msg_at 0 30] = [10, 20, 30]"
    by (simp add: created_times_def msg_at_def)
  from c t s show ?thesis by blast
qed

end
